theory Spec2Isabelle
  imports Complex_Main "HOL-Library.Sublist" "HOL-Library.AList"
begin

section \<open>Python built-ins used by the pipeline\<close>

text \<open>
  Strings are lists of characters indexed by position, as Python's \<open>str\<close> is (a character
  here is one of the first 256 code points); integers are unbounded (\<open>int\<close>). Slice bounds
  and the bounds of \<open>str.find\<close> and \<open>str.rfind\<close> may be negative or beyond the end, and
  are adjusted the way CPython adjusts them.
\<close>

definition py_adjust_start :: "int \<Rightarrow> int \<Rightarrow> int" where
  "py_adjust_start n i = (if i < 0 then max 0 (i + n) else i)"

definition py_adjust_end :: "int \<Rightarrow> int \<Rightarrow> int" where
  "py_adjust_end n i = (if i > n then n else if i < 0 then max 0 (i + n) else i)"

definition py_slice :: "string \<Rightarrow> int \<Rightarrow> int \<Rightarrow> string" where
  "py_slice s start end =
     (let n = int (length s);
          lo = min n (py_adjust_start n start);
          hi = py_adjust_end n end
      in take (nat (hi - lo)) (drop (nat lo) s))"

fun rfind_down :: "string \<Rightarrow> string \<Rightarrow> nat \<Rightarrow> nat \<Rightarrow> int" where
  "rfind_down s sub lo 0 = - 1"
| "rfind_down s sub lo (Suc k) =
     (if take (length sub) (drop (lo + k) s) = sub then int (lo + k)
      else rfind_down s sub lo k)"

definition py_rfind :: "string \<Rightarrow> string \<Rightarrow> int \<Rightarrow> int \<Rightarrow> int" where
  "py_rfind s sub start end =
     (let n = int (length s);
          lo = py_adjust_start n start;
          hi = py_adjust_end n end;
          m = int (length sub)
      in if hi - lo < m then - 1
         else rfind_down s sub (nat lo) (nat (hi - m - lo + 1)))"

fun find_up :: "string \<Rightarrow> string \<Rightarrow> nat \<Rightarrow> nat \<Rightarrow> int" where
  "find_up s sub i 0 = - 1"
| "find_up s sub i (Suc k) =
     (if take (length sub) (drop i s) = sub then int i
      else find_up s sub (Suc i) k)"

definition py_find :: "string \<Rightarrow> string \<Rightarrow> int \<Rightarrow> int" where
  "py_find s sub start =
     (let n = int (length s);
          lo = py_adjust_start n start;
          m = int (length sub)
      in if n - lo < m then - 1
         else find_up s sub (nat lo) (nat (n - m - lo + 1)))"

definition py_contains :: "string \<Rightarrow> string \<Rightarrow> bool" where
  "py_contains sub s = (0 \<le> py_find s sub 0)"

definition is_space :: "char \<Rightarrow> bool" where
  "is_space c = (of_char c \<in> {9, 10, 11, 12, 13, 28, 29, 30, 31, 32, 133, 160 :: nat})"

definition py_strip :: "string \<Rightarrow> string" where
  "py_strip s = rev (dropWhile is_space (rev (dropWhile is_space s)))"

section \<open>JSON values and dictionaries\<close>

datatype json =
    JNull
  | JBool bool
  | JInt int
  | JFloat real
  | JStr string
  | JArr "json list"
  | JObj "(string \<times> json) list"

type_synonym dict = "(string \<times> json) list"

section \<open>Chunker (phase 2, \<open>DocumentChunker.chunk_text\<close>)\<close>

record chunk =
  chunk_id :: int
  chunk_text :: string
  char_start :: int
  char_end :: int
  chunk_metadata :: "dict option"

definition markers :: "string list" where
  "markers = [''. '', [CHR ''.'', CHR 0x0A], ''! '', ''? '']"

text \<open>
  The \<open>for marker in [...]\<close> loop: every search runs over \<open>text[start:end]\<close> with the
  proposed end, and the loop is left at the first marker whose last occurrence lies after
  \<open>start\<close>.
\<close>

fun find_boundary :: "string \<Rightarrow> int \<Rightarrow> int \<Rightarrow> string list \<Rightarrow> int" where
  "find_boundary text start end [] = end"
| "find_boundary text start end (marker # ms) =
     (let pos = py_rfind text marker start end
      in if pos > start then pos + 1 else find_boundary text start end ms)"

definition chunk_end :: "int \<Rightarrow> string \<Rightarrow> int \<Rightarrow> int" where
  "chunk_end chunk_size text start =
     (let end = start + chunk_size
      in if end < int (length text) then find_boundary text start end markers else end)"

record chunker_state =
  cs_start :: int
  cs_chunk_id :: int
  cs_chunks :: "chunk list"

definition truthy_metadata :: "dict option \<Rightarrow> bool" where
  "truthy_metadata md = (case md of None \<Rightarrow> False | Some d \<Rightarrow> d \<noteq> [])"

text \<open>One iteration of the \<open>while start < len(text)\<close> loop body.\<close>

definition chunk_step :: "int \<Rightarrow> int \<Rightarrow> string \<Rightarrow> dict option \<Rightarrow> chunker_state \<Rightarrow> chunker_state" where
  "chunk_step chunk_size chunk_overlap text md st =
     (let start = cs_start st;
          end = chunk_end chunk_size text start;
          ct = py_strip (py_slice text start end);
          st' = (if ct \<noteq> []
                 then st\<lparr>cs_chunks := cs_chunks st @
                            [\<lparr>chunk_id = cs_chunk_id st, chunk_text = ct, char_start = start,
                              char_end = end,
                              chunk_metadata = (if truthy_metadata md then md else None)\<rparr>],
                          cs_chunk_id := cs_chunk_id st + 1\<rparr>
                 else st)
      in st'\<lparr>cs_start := (if end < int (length text) then end - chunk_overlap else end)\<rparr>)"

text \<open>
  The loop itself, with fuel: \<open>None\<close> means that the given number of iterations did not
  bring \<open>start\<close> to the end of the text.
\<close>

fun chunk_loop :: "nat \<Rightarrow> int \<Rightarrow> int \<Rightarrow> string \<Rightarrow> dict option \<Rightarrow> chunker_state \<Rightarrow> chunk list option" where
  "chunk_loop 0 chunk_size chunk_overlap text md st = None"
| "chunk_loop (Suc fuel) chunk_size chunk_overlap text md st =
     (if cs_start st < int (length text)
      then chunk_loop fuel chunk_size chunk_overlap text md
             (chunk_step chunk_size chunk_overlap text md st)
      else Some (cs_chunks st))"

definition chunk_text_fuel :: "nat \<Rightarrow> int \<Rightarrow> int \<Rightarrow> string \<Rightarrow> dict option \<Rightarrow> chunk list option" where
  "chunk_text_fuel fuel chunk_size chunk_overlap text md =
     (if text = [] then Some []
      else chunk_loop fuel chunk_size chunk_overlap text md
             \<lparr>cs_start = 0, cs_chunk_id = 0, cs_chunks = []\<rparr>)"


text \<open>
  An occurrence of a marker at offset \<open>p\<close>, and an occurrence that lies after \<open>start\<close>
  and wholly inside \<open>text[start:end]\<close>.
\<close>

definition marker_at :: "string \<Rightarrow> string \<Rightarrow> int \<Rightarrow> bool" where
  "marker_at text m p =
     (0 \<le> p \<and> p + int (length m) \<le> int (length text) \<and>
      take (length m) (drop (nat p) text) = m)"

definition occurs_after :: "string \<Rightarrow> int \<Rightarrow> int \<Rightarrow> string \<Rightarrow> int \<Rightarrow> bool" where
  "occurs_after text start end m p =
     (start < p \<and> p + int (length m) \<le> end \<and> marker_at text m p)"

text \<open>
  The boundary rule in the specification's words, for comparison with \<open>chunk_end\<close>: the
  end moves to just after the rightmost position, over all four markers together, at which
  a marker is found after \<open>start\<close>.
\<close>

definition spec_chunk_end :: "int \<Rightarrow> string \<Rightarrow> int \<Rightarrow> int" where
  "spec_chunk_end chunk_size text start =
     (let end = start + chunk_size;
          ps = filter (\<lambda>p. p > start) (map (\<lambda>m. py_rfind text m start end) markers)
      in if end < int (length text) \<and> ps \<noteq> [] then fold max ps start + 1 else end)"

section \<open>Exceptions\<close>

datatype exn =
    JSONDecodeError string
  | TypeError string
  | KeyError string
  | ValueError string
  | AttributeError string
  | OtherError string

fun exn_str :: "exn \<Rightarrow> string" where
  "exn_str (JSONDecodeError m) = m"
| "exn_str (TypeError m) = m"
| "exn_str (KeyError m) = m"
| "exn_str (ValueError m) = m"
| "exn_str (AttributeError m) = m"
| "exn_str (OtherError m) = m"

fun is_JSONDecodeError :: "exn \<Rightarrow> bool" where
  "is_JSONDecodeError (JSONDecodeError m) = True"
| "is_JSONDecodeError e = False"

section \<open>Retriever (phase 3, \<open>RAGRetriever\<close>)\<close>

text \<open>
  A stored chunk is a document of the chunk collection that has an \<open>embedding\<close> field; a
  retrieved chunk is the dictionary built for each result. Embedding components and scores
  are real numbers: rounding, infinities and NaN of the floating-point arithmetic are not
  modelled.
\<close>

record stored_chunk =
  d_doc_id :: string
  d_chunk_id :: int
  d_text :: string
  d_metadata :: "dict option"
  d_embedding :: "real list"

record retrieved_chunk =
  r_doc_id :: string
  r_chunk_id :: int
  r_text :: string
  r_metadata :: dict
  similarity_score :: real

definition TOP_K_RETRIEVAL :: int where
  "TOP_K_RETRIEVAL = 20"

definition linalg_norm :: "real list \<Rightarrow> real" where
  "linalg_norm v = sqrt (sum_list (map (\<lambda>x. x * x) v))"

definition dotp :: "real list \<Rightarrow> real list \<Rightarrow> real" where
  "dotp a b = sum_list (map (\<lambda>(x, y). x * y) (zip a b))"

text \<open>\<open>np.dot\<close> on two one-dimensional arrays raises when their lengths differ.\<close>

definition np_dot :: "real list \<Rightarrow> real list \<Rightarrow> exn + real" where
  "np_dot a b =
     (if length a = length b then Inr (dotp a b)
      else Inl (ValueError ''shapes not aligned''))"

text \<open>The loop that fills \<open>similarities\<close>; an entry is appended only under the guard.\<close>

fun similarity_loop ::
  "real list \<Rightarrow> real \<Rightarrow> stored_chunk list \<Rightarrow> (stored_chunk \<times> real) list \<Rightarrow>
   exn + (stored_chunk \<times> real) list" where
  "similarity_loop query_vec query_norm [] similarities = Inr similarities"
| "similarity_loop query_vec query_norm (c # cs) similarities =
     (let chunk_vec = d_embedding c;
          chunk_norm = linalg_norm chunk_vec
      in if chunk_norm > 0 \<and> query_norm > 0
         then (case np_dot query_vec chunk_vec of
                 Inl e \<Rightarrow> Inl e
               | Inr d \<Rightarrow> similarity_loop query_vec query_norm cs
                           (similarities @ [(c, d / (query_norm * chunk_norm))]))
         else similarity_loop query_vec query_norm cs similarities)"

text \<open>
  \<open>similarities.sort(key=lambda x: x[1], reverse=True)\<close>: Python's sort is stable, also
  with \<open>reverse=True\<close>; \<open>xs[:k]\<close> on a list.
\<close>

definition sort_desc :: "(stored_chunk \<times> real) list \<Rightarrow> (stored_chunk \<times> real) list" where
  "sort_desc xs = sort_key (\<lambda>x. - snd x) xs"

definition py_take :: "int \<Rightarrow> 'a list \<Rightarrow> 'a list" where
  "py_take k xs = take (nat (py_adjust_end (int (length xs)) k)) xs"

definition mk_result :: "stored_chunk \<times> real \<Rightarrow> retrieved_chunk" where
  "mk_result x =
     \<lparr>r_doc_id = d_doc_id (fst x), r_chunk_id = d_chunk_id (fst x), r_text = d_text (fst x),
      r_metadata = (case d_metadata (fst x) of None \<Rightarrow> [] | Some m \<Rightarrow> m),
      similarity_score = snd x\<rparr>"

definition cosine_similarity_search ::
  "stored_chunk list \<Rightarrow> real list \<Rightarrow> int \<Rightarrow> exn + retrieved_chunk list" where
  "cosine_similarity_search chunks query_embedding top_k =
     (if chunks = [] then Inr []
      else (case similarity_loop query_embedding (linalg_norm query_embedding) chunks [] of
              Inl e \<Rightarrow> Inl e
            | Inr similarities \<Rightarrow> Inr (map mk_result (py_take top_k (sort_desc similarities)))))"

text \<open>
  The specification's similarity, for comparison: the cosine, and 0 when either norm is 0;
  and the candidate set it describes, in which every indexed chunk takes part.
\<close>

definition spec_similarity :: "real list \<Rightarrow> real list \<Rightarrow> real" where
  "spec_similarity a b =
     (if linalg_norm a = 0 \<or> linalg_norm b = 0 then 0
      else dotp a b / (linalg_norm a * linalg_norm b))"

definition spec_search :: "stored_chunk list \<Rightarrow> real list \<Rightarrow> int \<Rightarrow> retrieved_chunk list" where
  "spec_search chunks query_embedding top_k =
     map mk_result
       (py_take top_k
          (sort_desc (map (\<lambda>c. (c, spec_similarity query_embedding (d_embedding c))) chunks)))"

text \<open>The scored pair that the loop appends for a chunk that passes the guard.\<close>

definition scored :: "real list \<Rightarrow> stored_chunk \<Rightarrow> stored_chunk \<times> real" where
  "scored q c = (c, dotp q (d_embedding c) / (linalg_norm q * linalg_norm (d_embedding c)))"

section \<open>The outside world of phase 3\<close>

text \<open>
  The pipeline talks to a judge (the LLM), an embedding service, a document store, the
  report files, the checkpoint file and the clock. What they answer is an input of the
  model (\<open>env\<close>); what the pipeline does to them is the state (\<open>world\<close>). The judge's
  answer may depend on how many calls came before, since the model is not deterministic.
  Oracles indexed by a \<open>nat\<close> are asked with the position of the claim in the run.
  The events are a ghost record of the calls made, in order.
\<close>

datatype event = EvAssess int | EvUpsert int | EvCsv int | EvAdvance int bool

datatype ckpt_file = NoFile | Written dict | Damaged

datatype write_outcome = WriteOk | OpenFailed | DumpFailed

record world =
  judge_calls :: "(string \<times> string) list list"
  assessments :: "dict list"
  csv_updates :: "(int \<times> dict) list"
  checkpoint_file :: ckpt_file
  events :: "event list"

record env =
  judge_chat :: "nat \<Rightarrow> (string \<times> string) list \<Rightarrow> exn + string"
  json_loads :: "string \<Rightarrow> json option"
  embed_text :: "string \<Rightarrow> exn + real list"
  chunks_find :: "exn + stored_chunk list"
  fmt_similarity :: "real \<Rightarrow> string"
  py_str :: "json \<Rightarrow> string"
  system_prompt :: string
  upsert_error :: "nat \<Rightarrow> exn option"
  csv_error :: "nat \<Rightarrow> exn option"
  fact_time :: "nat \<Rightarrow> real"
  created_at :: "nat \<Rightarrow> string"
  save_time :: "nat \<Rightarrow> string"
  write_result :: "nat \<Rightarrow> write_outcome"
  init_started_at :: string
  init_last_updated :: string

section \<open>Judge client (phase 3, \<open>OllamaClient\<close>)\<close>

definition build_messages :: "string \<Rightarrow> string option \<Rightarrow> (string \<times> string) list" where
  "build_messages prompt sp =
     (case sp of None \<Rightarrow> [] | Some s \<Rightarrow> (if s \<noteq> [] then [(''system'', s)] else []))
     @ [(''user'', prompt)]"

definition generate :: "env \<Rightarrow> string \<Rightarrow> string option \<Rightarrow> world \<Rightarrow> (exn + string) \<times> world" where
  "generate env prompt sp w =
     (let messages = build_messages prompt sp
      in (judge_chat env (length (judge_calls w)) messages,
          w\<lparr>judge_calls := judge_calls w @ [messages]\<rparr>))"

definition fence :: string where
  "fence = [CHR 0x60, CHR 0x60, CHR 0x60]"

definition extract_json_text :: "string \<Rightarrow> string" where
  "extract_json_text response_text =
     (if py_contains (fence @ ''json'') response_text
      then (let start = py_find response_text (fence @ ''json'') 0 + 7;
                end = py_find response_text fence start
            in py_strip (py_slice response_text start end))
      else if py_contains fence response_text
      then (let start = py_find response_text fence 0 + 3;
                end = py_find response_text fence start
            in py_strip (py_slice response_text start end))
      else py_strip response_text)"

definition parse_failure_default :: dict where
  "parse_failure_default =
     [(''score'', JInt 50), (''confidence'', JStr ''low''),
      (''num_supporting_sources'', JInt 0), (''num_contradicting_sources'', JInt 0),
      (''key_evidence'', JStr ''Failed to parse LLM response''),
      (''supporting_papers'', JArr []), (''contradicting_papers'', JArr [])]"

text \<open>
  The body of the \<open>try\<close> in \<open>generate_json\<close>: the call and the decoding. A decoding
  failure is the exception \<open>JSONDecodeError\<close>.
\<close>

definition try_generate :: "env \<Rightarrow> string \<Rightarrow> string option \<Rightarrow> world \<Rightarrow> (exn + json) \<times> world" where
  "try_generate env prompt sp w =
     (case generate env prompt sp w of
        (Inl e, w') \<Rightarrow> (Inl e, w')
      | (Inr response_text, w') \<Rightarrow>
          (case json_loads env (extract_json_text response_text) of
             None \<Rightarrow> (Inl (JSONDecodeError ''Expecting value''), w')
           | Some result \<Rightarrow> (Inr result, w')))"

text \<open>
  \<open>for attempt in range(max_retries)\<close>; falling out of the loop returns the empty
  dictionary.
\<close>

fun generate_json_loop ::
  "env \<Rightarrow> string \<Rightarrow> string option \<Rightarrow> int \<Rightarrow> nat list \<Rightarrow> world \<Rightarrow> (exn + json) \<times> world" where
  "generate_json_loop env prompt sp max_retries [] w = (Inr (JObj []), w)"
| "generate_json_loop env prompt sp max_retries (attempt # rest) w =
     (case try_generate env prompt sp w of
        (Inr result, w') \<Rightarrow> (Inr result, w')
      | (Inl e, w') \<Rightarrow>
          (if is_JSONDecodeError e
           then (if int attempt = max_retries - 1 then (Inr (JObj parse_failure_default), w')
                 else generate_json_loop env prompt sp max_retries rest w')
           else (Inl e, w')))"

definition generate_json ::
  "env \<Rightarrow> string \<Rightarrow> string option \<Rightarrow> int \<Rightarrow> world \<Rightarrow> (exn + json) \<times> world" where
  "generate_json env prompt sp max_retries w =
     generate_json_loop env prompt sp max_retries [0..<nat max_retries] w"

section \<open>Assessment engine (phase 3, \<open>AssessmentAgent\<close>)\<close>

record fact =
  fact_number :: int
  fact_text :: string
  fact_section :: string
  fact_csv_file :: string

definition nl :: string where
  "nl = [CHR 0x0A]"

function digits :: "nat \<Rightarrow> string" where
  "digits n = (if n < 10 then [char_of (48 + n)] else digits (n div 10) @ [char_of (48 + n mod 10)])"
  by pat_completeness auto
termination
  by (relation "measure (\<lambda>n. n)") auto

definition str_int :: "int \<Rightarrow> string" where
  "str_int i = (if i < 0 then ''-'' @ digits (nat (- i)) else digits (nat i))"

fun py_join :: "string \<Rightarrow> string list \<Rightarrow> string" where
  "py_join sep [] = []"
| "py_join sep [x] = x"
| "py_join sep (x # y # ys) = x @ sep @ py_join sep (y # ys)"

definition retrieve :: "env \<Rightarrow> string \<Rightarrow> int option \<Rightarrow> exn + retrieved_chunk list" where
  "retrieve env text top_k =
     (let k = (case top_k of None \<Rightarrow> TOP_K_RETRIEVAL | Some k \<Rightarrow> k)
      in case embed_text env text of
           Inl e \<Rightarrow> Inl e
         | Inr query_embedding \<Rightarrow>
             (case chunks_find env of
                Inl e \<Rightarrow> Inl e
              | Inr chunks \<Rightarrow> cosine_similarity_search chunks query_embedding k))"

definition context_part :: "env \<Rightarrow> nat \<Rightarrow> retrieved_chunk \<Rightarrow> string" where
  "context_part env i chunk =
     (let filename = (case map_of (r_metadata chunk) ''filename'' of
                        None \<Rightarrow> ''Unknown''
                      | Some (JStr s) \<Rightarrow> s
                      | Some v \<Rightarrow> py_str env v)
      in ''[Document '' @ str_int (int i) @ '': '' @ filename @ '' (similarity: ''
         @ fmt_similarity env (similarity_score chunk) @ '')]'' @ nl @ r_text chunk @ nl)"

definition build_context :: "env \<Rightarrow> retrieved_chunk list \<Rightarrow> string" where
  "build_context env chunks =
     py_join nl (map (\<lambda>(i, chunk). context_part env i chunk) (zip [1..<Suc (length chunks)] chunks))"

definition create_prompt :: "int \<Rightarrow> string \<Rightarrow> string \<Rightarrow> string" where
  "create_prompt n text context =
     ''STYLIZED FACT #'' @ str_int n @ '':'' @ nl @ [CHR 0x22] @ text @ [CHR 0x22] @ nl @ nl
     @ ''RELEVANT LITERATURE EXCERPTS:'' @ nl @ nl @ context @ nl @ nl
     @ ''Please assess the literature support for this fact and provide your analysis in JSON format.''"

definition default_assessment :: "string \<Rightarrow> dict" where
  "default_assessment reason =
     [(''score'', JInt 0), (''confidence'', JStr ''low''),
      (''num_supporting_sources'', JInt 0), (''num_contradicting_sources'', JInt 0),
      (''key_evidence'', JStr reason),
      (''supporting_papers'', JArr []), (''contradicting_papers'', JArr [])]"

text \<open>
  \<open>assessment["fact_number"] = ...\<close> on what the decoder returned: anything but a
  dictionary raises \<open>TypeError\<close>, with this text.
\<close>

fun item_assignment_error :: "json \<Rightarrow> string" where
  "item_assignment_error (JArr xs) = ''list indices must be integers or slices, not str''"
| "item_assignment_error (JStr s) = [CHR 0x27] @ ''str'' @ [CHR 0x27] @ '' object does not support item assignment''"
| "item_assignment_error (JInt i) = [CHR 0x27] @ ''int'' @ [CHR 0x27] @ '' object does not support item assignment''"
| "item_assignment_error (JFloat x) = [CHR 0x27] @ ''float'' @ [CHR 0x27] @ '' object does not support item assignment''"
| "item_assignment_error (JBool b) = [CHR 0x27] @ ''bool'' @ [CHR 0x27] @ '' object does not support item assignment''"
| "item_assignment_error JNull = [CHR 0x27] @ ''NoneType'' @ [CHR 0x27] @ '' object does not support item assignment''"
| "item_assignment_error (JObj d) = []"

definition assess_fact :: "env \<Rightarrow> fact \<Rightarrow> world \<Rightarrow> (exn + dict) \<times> world" where
  "assess_fact env f w =
     (let n = fact_number f;
          w0 = w\<lparr>events := events w @ [EvAssess n]\<rparr>
      in case retrieve env (fact_text f) None of
           Inl e \<Rightarrow> (Inl e, w0)
         | Inr [] \<Rightarrow> (Inr (default_assessment ''No relevant literature found''), w0)
         | Inr (c # cs) \<Rightarrow>
             (let context = build_context env (c # cs);
                  prompt = create_prompt n (fact_text f) context
              in case generate_json env prompt (Some (system_prompt env)) 3 w0 of
                   (Inl e, w1) \<Rightarrow> (Inr (default_assessment (''Error: '' @ exn_str e)), w1)
                 | (Inr (JObj d), w1) \<Rightarrow>
                     (Inr (AList.update ''top_similarity_score'' (JFloat (similarity_score c))
                            (AList.update ''retrieved_chunks_count'' (JInt (int (length (c # cs))))
                              (AList.update ''fact_number'' (JInt n) d))), w1)
                 | (Inr v, w1) \<Rightarrow>
                     (Inr (default_assessment (''Error: '' @ item_assignment_error v)), w1)))"

section \<open>Checkpoint store (phase 3, \<open>CheckpointManager\<close>)\<close>

text \<open>
  A checkpoint is the dictionary that is read from and written to the checkpoint file.
  Saving stamps \<open>last_updated\<close> and rewrites the file. A failed write is logged and
  swallowed: when the file cannot be opened it stays as it is, and when the dump fails
  after the file was opened for writing it is left truncated and does not load.
\<close>

definition load_checkpoint :: "ckpt_file \<Rightarrow> dict option" where
  "load_checkpoint cf = (case cf of NoFile \<Rightarrow> None | Written cp \<Rightarrow> Some cp | Damaged \<Rightarrow> None)"

definition write_file :: "write_outcome \<Rightarrow> dict \<Rightarrow> ckpt_file \<Rightarrow> ckpt_file" where
  "write_file outcome cp cf =
     (case outcome of WriteOk \<Rightarrow> Written cp | OpenFailed \<Rightarrow> cf | DumpFailed \<Rightarrow> Damaged)"

definition save_checkpoint :: "string \<Rightarrow> write_outcome \<Rightarrow> dict \<Rightarrow> ckpt_file \<Rightarrow> dict \<times> ckpt_file" where
  "save_checkpoint now outcome checkpoint cf =
     (let cp = AList.update ''last_updated'' (JStr now) checkpoint
      in (cp, write_file outcome cp cf))"

definition create_initial_checkpoint :: "int \<Rightarrow> string \<Rightarrow> string \<Rightarrow> dict" where
  "create_initial_checkpoint total_facts now1 now2 =
     [(''last_completed_fact'', JInt 0), (''total_facts'', JInt total_facts),
      (''facts_processed'', JInt 0), (''failed_facts'', JArr []),
      (''started_at'', JStr now1), (''last_updated'', JStr now2)]"

text \<open>\<open>x += 1\<close> on a value read from JSON.\<close>

fun py_add_one :: "json \<Rightarrow> exn + json" where
  "py_add_one (JInt k) = Inr (JInt (k + 1))"
| "py_add_one (JFloat x) = Inr (JFloat (x + 1))"
| "py_add_one (JBool b) = Inr (JInt ((if b then 1 else 0) + 1))"
| "py_add_one v = Inl (TypeError ''unsupported operand type(s) for +='')"

text \<open>
  \<open>update_checkpoint\<close> mutates the dictionary in place, so what it has done before an
  exception stays done: the result is the exception, if any, with the dictionary and the
  file as they are then.
\<close>

definition update_checkpoint ::
  "string \<Rightarrow> write_outcome \<Rightarrow> dict \<Rightarrow> int \<Rightarrow> bool \<Rightarrow> ckpt_file \<Rightarrow>
   exn option \<times> dict \<times> ckpt_file" where
  "update_checkpoint now outcome checkpoint n success cf =
     (let cp1 = AList.update ''last_completed_fact'' (JInt n) checkpoint
      in case map_of cp1 ''facts_processed'' of
           None \<Rightarrow> (Some (KeyError ''facts_processed''), cp1, cf)
         | Some v \<Rightarrow>
             (case py_add_one v of
                Inl e \<Rightarrow> (Some e, cp1, cf)
              | Inr v' \<Rightarrow>
                  (let cp2 = AList.update ''facts_processed'' v' cp1
                   in if \<not> success
                      then (let cp3 = (if map_of cp2 ''failed_facts'' = None
                                       then AList.update ''failed_facts'' (JArr []) cp2 else cp2)
                            in case map_of cp3 ''failed_facts'' of
                                 Some (JArr xs) \<Rightarrow>
                                   (case save_checkpoint now outcome
                                           (AList.update ''failed_facts'' (JArr (xs @ [JInt n])) cp3) cf of
                                      (cp, cf') \<Rightarrow> (None, cp, cf'))
                               | _ \<Rightarrow> (Some (AttributeError ''append''), cp3, cf))
                      else (case save_checkpoint now outcome cp2 cf of
                              (cp, cf') \<Rightarrow> (None, cp, cf')))))"

section \<open>Result sink (the \<open>assessments\<close> collection)\<close>

text \<open>
  \<open>update_one(filter, {"$set": fields}, upsert=True)\<close> of the document store, for a
  filter of equalities: the first matching document gets the fields set; without a match
  a document made of the filter and the fields is inserted. The store's own \<open>_id\<close> field
  is not modelled.
\<close>

definition matches :: "dict \<Rightarrow> dict \<Rightarrow> bool" where
  "matches flt doc = (\<forall>(k, v) \<in> set flt. map_of doc k = Some v)"

definition set_fields :: "dict \<Rightarrow> dict \<Rightarrow> dict" where
  "set_fields upd doc = fold (\<lambda>(k, v) d. AList.update k v d) upd doc"

fun update_first :: "dict \<Rightarrow> dict \<Rightarrow> dict list \<Rightarrow> dict list option" where
  "update_first flt upd [] = None"
| "update_first flt upd (doc # docs) =
     (if matches flt doc then Some (set_fields upd doc # docs)
      else map_option ((#) doc) (update_first flt upd docs))"

definition update_one_upsert :: "dict \<Rightarrow> dict \<Rightarrow> dict list \<Rightarrow> dict list" where
  "update_one_upsert flt upd coll =
     (case update_first flt upd coll of
        Some coll' \<Rightarrow> coll'
      | None \<Rightarrow> coll @ [set_fields upd flt])"

definition LLM_MODEL :: string where
  "LLM_MODEL = ''gpt-oss:120b''"

definition assessment_fields :: "int \<Rightarrow> dict \<Rightarrow> real \<Rightarrow> string \<Rightarrow> dict" where
  "assessment_fields n assessment t now =
     [(''fact_number'', JInt n), (''assessment_result'', JObj assessment),
      (''processing_time_seconds'', JFloat t), (''llm_model'', JStr LLM_MODEL),
      (''created_at'', JStr now)]"

definition upsert_assessment :: "int \<Rightarrow> dict \<Rightarrow> real \<Rightarrow> string \<Rightarrow> dict list \<Rightarrow> dict list" where
  "upsert_assessment n assessment t now coll =
     update_one_upsert [(''fact_number'', JInt n)] (assessment_fields n assessment t now) coll"

section \<open>Review orchestrator (phase 3, \<open>ReviewPipeline.run\<close>)\<close>

text \<open>\<open>f["fact_number"] > last_completed\<close>, with the cursor as read from the checkpoint.\<close>

fun py_int_gt :: "int \<Rightarrow> json \<Rightarrow> exn + bool" where
  "py_int_gt n (JInt m) = Inr (n > m)"
| "py_int_gt n (JFloat x) = Inr (real_of_int n > x)"
| "py_int_gt n (JBool b) = Inr (n > (if b then 1 else 0))"
| "py_int_gt n v = Inl (TypeError ''> not supported'')"

fun facts_to_process :: "fact list \<Rightarrow> json \<Rightarrow> exn + fact list" where
  "facts_to_process [] last_completed = Inr []"
| "facts_to_process (f # fs) last_completed =
     (case py_int_gt (fact_number f) last_completed of
        Inl e \<Rightarrow> Inl e
      | Inr b \<Rightarrow> (case facts_to_process fs last_completed of
                   Inl e \<Rightarrow> Inl e
                 | Inr rest \<Rightarrow> Inr (if b then f # rest else rest)))"

text \<open>The statements of the \<open>try\<close> block before the checkpoint update.\<close>

definition try_fact :: "env \<Rightarrow> nat \<Rightarrow> fact \<Rightarrow> world \<Rightarrow> (exn + dict) \<times> world" where
  "try_fact env i f w =
     (let n = fact_number f
      in case assess_fact env f w of
           (Inl e, w1) \<Rightarrow> (Inl e, w1)
         | (Inr assessment, w1) \<Rightarrow>
             (case upsert_error env i of
                Some e \<Rightarrow> (Inl e, w1)
              | None \<Rightarrow>
                  (let w2 = w1\<lparr>assessments :=
                                  upsert_assessment n assessment (fact_time env i) (created_at env i)
                                    (assessments w1),
                                events := events w1 @ [EvUpsert n]\<rparr>
                   in case csv_error env i of
                        Some e \<Rightarrow> (Inl e, w2)
                      | None \<Rightarrow>
                          (Inr assessment,
                           w2\<lparr>csv_updates := csv_updates w2 @ [(n, assessment)],
                              events := events w2 @ [EvCsv n]\<rparr>))))"

text \<open>The \<open>except Exception\<close> handler of the loop body.\<close>

definition on_failure :: "env \<Rightarrow> nat \<Rightarrow> int \<Rightarrow> dict \<Rightarrow> world \<Rightarrow> exn option \<times> dict \<times> world" where
  "on_failure env i n checkpoint w =
     (case update_checkpoint (save_time env i) (write_result env i) checkpoint n False (checkpoint_file w) of
        (None, cp, cf) \<Rightarrow>
          (None, cp, w\<lparr>checkpoint_file := cf, events := events w @ [EvAdvance n False]\<rparr>)
      | (Some e, cp, cf) \<Rightarrow> (Some e, cp, w\<lparr>checkpoint_file := cf\<rparr>))"

definition process_fact :: "env \<Rightarrow> nat \<Rightarrow> fact \<Rightarrow> dict \<Rightarrow> world \<Rightarrow> exn option \<times> dict \<times> world" where
  "process_fact env i f checkpoint w =
     (let n = fact_number f
      in case try_fact env i f w of
           (Inl e, w1) \<Rightarrow> on_failure env i n checkpoint w1
         | (Inr assessment, w1) \<Rightarrow>
             (case update_checkpoint (save_time env i) (write_result env i) checkpoint n True
                     (checkpoint_file w1) of
                (None, cp, cf) \<Rightarrow>
                  (None, cp, w1\<lparr>checkpoint_file := cf, events := events w1 @ [EvAdvance n True]\<rparr>)
              | (Some e, cp, cf) \<Rightarrow> on_failure env i n cp (w1\<lparr>checkpoint_file := cf\<rparr>)))"

text \<open>
  The \<open>for fact in facts_to_process\<close> loop. An exception that leaves the handler ends
  the run.
\<close>

fun run_loop :: "env \<Rightarrow> nat \<Rightarrow> fact list \<Rightarrow> dict \<Rightarrow> world \<Rightarrow> exn option \<times> dict \<times> world" where
  "run_loop env i [] checkpoint w = (None, checkpoint, w)"
| "run_loop env i (f # fs) checkpoint w =
     (case process_fact env i f checkpoint w of
        (None, cp, w') \<Rightarrow> run_loop env (Suc i) fs cp w'
      | (Some e, cp, w') \<Rightarrow> (Some e, cp, w'))"

definition initial_checkpoint :: "env \<Rightarrow> fact list \<Rightarrow> world \<Rightarrow> dict" where
  "initial_checkpoint env facts w =
     (case load_checkpoint (checkpoint_file w) of
        None \<Rightarrow> create_initial_checkpoint (int (length facts)) (init_started_at env)
                 (init_last_updated env)
      | Some cp \<Rightarrow> cp)"

definition last_completed :: "dict \<Rightarrow> json" where
  "last_completed checkpoint =
     (case map_of checkpoint ''last_completed_fact'' of None \<Rightarrow> JInt 0 | Some v \<Rightarrow> v)"

text \<open>
  \<open>run\<close>, from the loaded catalogue on. The message logged before the loop computes
  \<open>last_completed + 1\<close>, which raises for a cursor that is not a number. The progress
  bar and the summary logged after the loop are not modelled.
\<close>

definition run :: "env \<Rightarrow> fact list \<Rightarrow> world \<Rightarrow> exn option \<times> dict \<times> world" where
  "run env facts w =
     (let checkpoint = initial_checkpoint env facts w
      in case facts_to_process facts (last_completed checkpoint) of
           Inl e \<Rightarrow> (Some e, checkpoint, w)
         | Inr pending \<Rightarrow>
             (case py_add_one (last_completed checkpoint) of
                Inl e \<Rightarrow> (Some e, checkpoint, w)
              | Inr v \<Rightarrow> run_loop env 0 pending checkpoint w))"

section \<open>Judges and sample inputs\<close>


text \<open>
  A small environment for concrete runs: the judge and the chunk collection are given, the
  decoder accepts only the text \<open>{}\<close>, every claim embeds to \<open>[1, 0]\<close>, and the store,
  the report and the checkpoint file never fail.
\<close>

definition sample_env ::
  "(nat \<Rightarrow> (string \<times> string) list \<Rightarrow> exn + string) \<Rightarrow> (exn + stored_chunk list) \<Rightarrow> env" where
  "sample_env judge chunks =
     \<lparr>judge_chat = judge,
      json_loads = (\<lambda>s. if s = ''{}'' then Some (JObj []) else None),
      embed_text = (\<lambda>t. Inr [1, 0]),
      chunks_find = chunks,
      fmt_similarity = (\<lambda>x. ''1.000''),
      py_str = (\<lambda>v. ''None''),
      system_prompt = ''You are a scientific literature reviewer'',
      upsert_error = (\<lambda>i. None),
      csv_error = (\<lambda>i. None),
      fact_time = (\<lambda>i. 1),
      created_at = (\<lambda>i. ''2025-01-01 00:00:00''),
      save_time = (\<lambda>i. ''2025-01-01T00:00:00''),
      write_result = (\<lambda>i. WriteOk),
      init_started_at = ''2025-01-01T00:00:00'',
      init_last_updated = ''2025-01-01T00:00:00''\<rparr>"

definition sample_chunk :: stored_chunk where
  "sample_chunk =
     \<lparr>d_doc_id = ''doc'', d_chunk_id = 0, d_text = ''reserve dynamics'',
      d_metadata = Some [(''filename'', JStr ''paper.pdf'')], d_embedding = [1, 0]\<rparr>"

definition empty_world :: world where
  "empty_world =
     \<lparr>judge_calls = [], assessments = [], csv_updates = [], checkpoint_file = NoFile, events = []\<rparr>"

definition garbled_judge :: "nat \<Rightarrow> (string \<times> string) list \<Rightarrow> exn + string" where
  "garbled_judge k msgs = Inr ''not json''"

definition unreachable_judge :: "nat \<Rightarrow> (string \<times> string) list \<Rightarrow> exn + string" where
  "unreachable_judge k msgs = Inl (OtherError ''connection refused'')"

definition empty_judge :: "nat \<Rightarrow> (string \<times> string) list \<Rightarrow> exn + string" where
  "empty_judge k msgs = Inr ''{}''"

definition sample_fact :: "int \<Rightarrow> fact" where
  "sample_fact n =
     \<lparr>fact_number = n, fact_text = ''Reserve density scales with structural length'',
      fact_section = ''Standard Model'', fact_csv_file = ''standard_model.csv''\<rparr>"

section \<open>Stored records\<close>

text \<open>The stored assessments for claim \<open>n\<close>, and the failure ledger of a checkpoint.\<close>

definition keyed_by :: "int \<Rightarrow> dict \<Rightarrow> bool" where
  "keyed_by n doc = (map_of doc ''fact_number'' = Some (JInt n))"

definition failed_list :: "dict \<Rightarrow> json list" where
  "failed_list checkpoint =
     (case map_of checkpoint ''failed_facts'' of Some (JArr xs) \<Rightarrow> xs | _ \<Rightarrow> [])"

text \<open>
  A checkpoint in the persisted format: \<open>facts_processed\<close> is an integer and
  \<open>failed_facts\<close>, when present, is a list.
\<close>

definition wf_checkpoint :: "dict \<Rightarrow> bool" where
  "wf_checkpoint checkpoint =
     ((case map_of checkpoint ''facts_processed'' of Some (JInt k) \<Rightarrow> True | _ \<Rightarrow> False) \<and>
      (case map_of checkpoint ''failed_facts'' of
         None \<Rightarrow> True | Some (JArr xs) \<Rightarrow> True | _ \<Rightarrow> False))"

definition processed_count :: "dict \<Rightarrow> int" where
  "processed_count checkpoint =
     (case map_of checkpoint ''facts_processed'' of Some (JInt k) \<Rightarrow> k | _ \<Rightarrow> 0)"

section \<open>Reading the record of events\<close>

fun assessed_of :: "event \<Rightarrow> int list" where
  "assessed_of (EvAssess n) = [n]"
| "assessed_of ev = []"

fun advanced_of :: "event \<Rightarrow> (int \<times> bool) list" where
  "advanced_of (EvAdvance n ok) = [(n, ok)]"
| "advanced_of ev = []"

definition assessed :: "event list \<Rightarrow> int list" where
  "assessed evs = concat (map assessed_of evs)"

definition advanced :: "event list \<Rightarrow> (int \<times> bool) list" where
  "advanced evs = concat (map advanced_of evs)"

text \<open>A run in which no call to the outside raises into the orchestrator.\<close>

definition no_failures :: "env \<Rightarrow> fact list \<Rightarrow> bool" where
  "no_failures env facts =
     ((\<forall>f \<in> set facts. \<forall>e. retrieve env (fact_text f) None \<noteq> Inl e) \<and>
      (\<forall>i. upsert_error env i = None \<and> csv_error env i = None))"

definition success_events :: "int \<Rightarrow> event list" where
  "success_events n = [EvAssess n, EvUpsert n, EvCsv n, EvAdvance n True]"

definition sample_facts :: "fact list" where
  "sample_facts = map sample_fact [1, 2, 3, 4, 5, 6, 7, 8, 9, 10]"

definition sample_checkpoint :: dict where
  "sample_checkpoint =
     [(''last_completed_fact'', JInt 5), (''total_facts'', JInt 10),
      (''facts_processed'', JInt 5), (''failed_facts'', JArr []),
      (''started_at'', JStr ''2025-01-01T00:00:00''),
      (''last_updated'', JStr ''2025-01-01T00:05:00'')]"

text \<open>A text of 1104 characters: one short sentence, then a long run without a marker.\<close>

definition long_text :: string where
  "long_text = ''ab. '' @ replicate 1100 (CHR ''x'')"

text \<open>
  The first stored record for claim \<open>n\<close> carries the assessment \<open>a\<close> with the processing
  time and the creation stamp of position \<open>i\<close> of the run.
\<close>

definition stored_at :: "env \<Rightarrow> nat \<Rightarrow> int \<Rightarrow> dict \<Rightarrow> dict list \<Rightarrow> bool" where
  "stored_at env i n a coll =
     (\<exists>d ds. filter (keyed_by n) coll = d # ds \<and>
        map_of d ''fact_number'' = Some (JInt n) \<and>
        map_of d ''assessment_result'' = Some (JObj a) \<and>
        map_of d ''processing_time_seconds'' = Some (JFloat (fact_time env i)) \<and>
        map_of d ''llm_model'' = Some (JStr LLM_MODEL) \<and>
        map_of d ''created_at'' = Some (JStr (created_at env i)))"

text \<open>The collection after the upserts of a run, from position \<open>i\<close> on.\<close>

fun upsert_all :: "env \<Rightarrow> nat \<Rightarrow> (int \<times> dict) list \<Rightarrow> dict list \<Rightarrow> dict list" where
  "upsert_all env i [] coll = coll"
| "upsert_all env i ((n, a) # xs) coll =
     upsert_all env (Suc i) xs
       (upsert_assessment n a (fact_time env i) (created_at env i) coll)"

section \<open>Properties\<close>

lemma chunk_loop_stuck:
  "cs_start st = 0 \<Longrightarrow> chunk_loop fuel 10 3 ''ab. cdefghijklmnopqrstuvwxyz'' md st = None"
proof (induction fuel arbitrary: st)
  case 0
  show ?case by simp
next
  case (Suc fuel)
  have e: "chunk_end 10 ''ab. cdefghijklmnopqrstuvwxyz'' 0 = 3"
    by code_simp
  have "cs_start (chunk_step 10 3 ''ab. cdefghijklmnopqrstuvwxyz'' md st) = 0"
    using Suc.prems by (simp add: chunk_step_def Let_def e)
  then show ?case
    using Suc.IH Suc.prems by simp
qed

lemma chunk_text_diverges_small:
  "chunk_text_fuel fuel 10 3 ''ab. cdefghijklmnopqrstuvwxyz'' md = None"
  by (simp add: chunk_text_fuel_def chunk_loop_stuck)

text \<open>
  The same loop returns on the specification's example \<open>A. B. C.\<close> with size 4 and
  overlap 1, after three iterations.
\<close>

lemma chunk_text_example:
  "chunk_text_fuel 4 4 1 ''A. B. C.'' None =
     Some [\<lparr>chunk_id = 0, chunk_text = ''A.'', char_start = 0, char_end = 2, chunk_metadata = None\<rparr>,
           \<lparr>chunk_id = 1, chunk_text = ''. B.'', char_start = 1, char_end = 5, chunk_metadata = None\<rparr>,
           \<lparr>chunk_id = 2, chunk_text = ''. C.'', char_start = 4, char_end = 8, chunk_metadata = None\<rparr>]"
  by code_simp

text \<open>
  Claim C3 as stated fails: in \<open>ab. cd! efghijklmnop\<close> with size 10 the rightmost marker
  inside the window is the exclamation-space at offset 6, which would put the end at 7; the
  code stops at the period-space at offset 2 and puts the end at 3.
\<close>

theorem boundary_counterexample:
  "chunk_end 10 ''ab. cd! efghijklmnop'' 0 = 3 \<and>
   spec_chunk_end 10 ''ab. cd! efghijklmnop'' 0 = 7"
  by code_simp

lemma rfind_down_found:
  "rfind_down s sub lo k \<noteq> - 1 \<Longrightarrow>
     \<exists>i<k. rfind_down s sub lo k = int (lo + i) \<and> take (length sub) (drop (lo + i) s) = sub"
  by (induction k) (auto split: if_splits intro: less_SucI)

lemma rfind_down_greatest:
  "i < k \<Longrightarrow> take (length sub) (drop (lo + i) s) = sub \<Longrightarrow> int (lo + i) \<le> rfind_down s sub lo k"
proof (induction k)
  case 0
  then show ?case by simp
next
  case (Suc k)
  show ?case
  proof (cases "i = k")
    case True
    with Suc.prems show ?thesis by simp
  next
    case False
    with Suc.prems have "i < k" by simp
    with Suc show ?thesis by auto
  qed
qed


lemma py_rfind_sound:
  assumes "0 \<le> start" "0 \<le> e" "e \<le> int (length s)" "py_rfind s sub start e \<noteq> - 1"
  shows "start \<le> py_rfind s sub start e \<and> py_rfind s sub start e + int (length sub) \<le> e \<and>
         marker_at s sub (py_rfind s sub start e)"
proof -
  let ?m = "int (length sub)"
  from assms have ge: "\<not> e - start < ?m"
    by (auto simp: py_rfind_def py_adjust_start_def py_adjust_end_def Let_def split: if_splits)
  have eq: "py_rfind s sub start e = rfind_down s sub (nat start) (nat (e - ?m - start + 1))"
    using assms ge by (simp add: py_rfind_def py_adjust_start_def py_adjust_end_def Let_def)
  with assms(4) obtain i where i: "i < nat (e - ?m - start + 1)"
      "py_rfind s sub start e = int (nat start + i)"
      "take (length sub) (drop (nat start + i) s) = sub"
    using rfind_down_found[of s sub "nat start" "nat (e - ?m - start + 1)"] by auto
  from i(1,2) assms(1) have "start \<le> py_rfind s sub start e"
    and "py_rfind s sub start e + ?m \<le> e" by auto
  moreover have "marker_at s sub (py_rfind s sub start e)"
    using i assms \<open>py_rfind s sub start e + ?m \<le> e\<close>
    by (simp add: marker_at_def nat_add_distrib)
  ultimately show ?thesis by simp
qed

lemma py_rfind_greatest:
  assumes "0 \<le> start" "0 \<le> e" "e \<le> int (length s)"
    and "start \<le> p" "p + int (length sub) \<le> e" "marker_at s sub p"
  shows "p \<le> py_rfind s sub start e"
proof -
  let ?m = "int (length sub)"
  from assms have ge: "\<not> e - start < ?m" by auto
  have eq: "py_rfind s sub start e = rfind_down s sub (nat start) (nat (e - ?m - start + 1))"
    using assms ge by (simp add: py_rfind_def py_adjust_start_def py_adjust_end_def Let_def)
  define i where "i = nat (p - start)"
  have p: "nat start + i = nat p" using assms by (simp add: i_def)
  have "i < nat (e - ?m - start + 1)" using assms by (simp add: i_def)
  moreover have "take (length sub) (drop (nat start + i) s) = sub"
    using assms(6) by (simp add: p marker_at_def)
  ultimately have "int (nat start + i) \<le> rfind_down s sub (nat start) (nat (e - ?m - start + 1))"
    by (rule rfind_down_greatest)
  then show ?thesis using assms by (simp add: eq p)
qed

lemma pos_after_start_iff:
  assumes "0 \<le> start" "0 \<le> e" "e \<le> int (length s)"
  shows "start < py_rfind s m start e \<longleftrightarrow> (\<exists>p. occurs_after s start e m p)"
proof
  assume h: "start < py_rfind s m start e"
  with assms(1) have "py_rfind s m start e \<noteq> - 1" by simp
  from py_rfind_sound[OF assms this] h show "\<exists>p. occurs_after s start e m p"
    by (auto simp: occurs_after_def)
next
  assume "\<exists>p. occurs_after s start e m p"
  then obtain p where p: "start < p" "p + int (length m) \<le> e" "marker_at s m p"
    by (auto simp: occurs_after_def)
  from py_rfind_greatest[OF assms _ p(2,3)] p(1) show "start < py_rfind s m start e"
    by simp
qed

lemma pos_is_Max:
  assumes "0 \<le> start" "0 \<le> e" "e \<le> int (length s)" and h: "start < py_rfind s m start e"
  shows "Max {p. occurs_after s start e m p} = py_rfind s m start e"
proof (rule Max_eqI)
  have "{p. occurs_after s start e m p} \<subseteq> {start..e}"
    by (auto simp: occurs_after_def)
  then show "finite {p. occurs_after s start e m p}"
    by (rule finite_subset) simp
next
  fix y assume "y \<in> {p. occurs_after s start e m p}"
  then have "start \<le> y" "y + int (length m) \<le> e" "marker_at s m y"
    by (auto simp: occurs_after_def)
  from py_rfind_greatest[OF assms(1-3) this] show "y \<le> py_rfind s m start e" .
next
  from h assms(1) have "py_rfind s m start e \<noteq> - 1" by simp
  from py_rfind_sound[OF assms(1-3) this] h
  show "py_rfind s m start e \<in> {p. occurs_after s start e m p}"
    by (simp add: occurs_after_def)
qed

lemma find_boundary_first:
  assumes "0 \<le> start" "0 \<le> e" "e \<le> int (length s)"
  shows "find_boundary s start e ms =
     (case find (\<lambda>m. \<exists>p. occurs_after s start e m p) ms of
        None \<Rightarrow> e
      | Some m \<Rightarrow> Max {p. occurs_after s start e m p} + 1)"
proof (induction ms)
  case Nil
  show ?case by simp
next
  case (Cons m ms)
  show ?case
  proof (cases "start < py_rfind s m start e")
    case True
    then have "\<exists>p. occurs_after s start e m p"
      using pos_after_start_iff[OF assms] by simp
    with True pos_is_Max[OF assms True] show ?thesis by (simp add: Let_def)
  next
    case False
    then have "\<not> (\<exists>p. occurs_after s start e m p)"
      using pos_after_start_iff[OF assms] by simp
    with False Cons show ?thesis by (auto simp: Let_def)
  qed
qed

text \<open>
  Claim C3 (boundary selection), as the code has it. For \<open>0 \<le> start\<close>, a size
  \<open>S \<ge> 0\<close> and a proposed end \<open>start + S\<close> before the end of the text: the markers
  are tried in the order period-space, period-newline, exclamation-space, question-space;
  the first of them that occurs after \<open>start\<close> wholly inside \<open>text[start:start+S]\<close>
  decides, and the end is put just after the first character of its last such occurrence.
  Later markers are not looked at, also when they occur further right. When no marker
  occurs there, the end stays at \<open>start + S\<close>.
\<close>

theorem chunk_end_first_marker_type:
  assumes "0 \<le> start" "0 \<le> chunk_size" "start + chunk_size < int (length text)"
  shows "chunk_end chunk_size text start =
     (case find (\<lambda>m. \<exists>p. occurs_after text start (start + chunk_size) m p) markers of
        None \<Rightarrow> start + chunk_size
      | Some m \<Rightarrow> Max {p. occurs_after text start (start + chunk_size) m p} + 1)"
proof -
  have "find_boundary text start (start + chunk_size) markers =
     (case find (\<lambda>m. \<exists>p. occurs_after text start (start + chunk_size) m p) markers of
        None \<Rightarrow> start + chunk_size
      | Some m \<Rightarrow> Max {p. occurs_after text start (start + chunk_size) m p} + 1)"
    by (rule find_boundary_first) (use assms in auto)
  with assms(3) show ?thesis by (simp add: chunk_end_def Let_def)
qed

text \<open>The boundary rule on the text of the counterexample: the period-space decides.\<close>

theorem chunk_end_first_marker_type_witness:
  "(0::int) \<le> 0 \<and> (0::int) \<le> 10 \<and> 0 + 10 < int (length ''ab. cd! efghijklmnop'') \<and>
   find (\<lambda>m. \<exists>p. occurs_after ''ab. cd! efghijklmnop'' 0 (0 + 10) m p) markers = Some ''. '' \<and>
   Max {p. occurs_after ''ab. cd! efghijklmnop'' 0 (0 + 10) ''. '' p} + 1 = 3"
proof -
  have e: "chunk_end 10 ''ab. cd! efghijklmnop'' 0 = 3" by code_simp
  have o: "occurs_after ''ab. cd! efghijklmnop'' 0 (0 + 10) ''. '' 2"
    by (simp add: occurs_after_def marker_at_def)
  then have f: "find (\<lambda>m. \<exists>p. occurs_after ''ab. cd! efghijklmnop'' 0 (0 + 10) m p) markers = Some ''. ''"
    by (auto simp: markers_def)
  from chunk_end_first_marker_type[of 0 10 "''ab. cd! efghijklmnop''"] e f
  show ?thesis by simp
qed

lemma long_text_length: "int (length long_text) = 1104"
  by (simp add: long_text_def)

lemma long_text_tail: "4 \<le> i \<Longrightarrow> i < 1104 \<Longrightarrow> long_text ! i = CHR ''x''"
  by (simp add: long_text_def nth_append)

lemma marker_at_first: "marker_at text m p \<Longrightarrow> m \<noteq> [] \<Longrightarrow> text ! nat p = hd m"
proof -
  assume a: "marker_at text m p" and ne: "m \<noteq> []"
  then have lt: "nat p < length text" by (cases m) (auto simp: marker_at_def)
  from a have "take (length m) (drop (nat p) text) = m" by (simp add: marker_at_def)
  then have "hd (take (length m) (drop (nat p) text)) = hd m" by simp
  moreover have "hd (take (length m) (drop (nat p) text)) = text ! nat p"
    using ne lt by (cases m) (simp_all add: hd_drop_conv_nth)
  ultimately show ?thesis by simp
qed

lemma long_text_rfind: "py_rfind long_text ''. '' 0 1000 = 2"
proof -
  let ?r = "py_rfind long_text ''. '' 0 1000"
  have len: "(1000::int) \<le> int (length long_text)" by (simp add: long_text_length)
  have occ: "marker_at long_text ''. '' 2"
    by (simp add: marker_at_def long_text_def)
  have ge: "2 \<le> ?r"
    using py_rfind_greatest[of 0 1000 long_text 2 "''. ''"] len occ by simp
  then have "?r \<noteq> - 1" by simp
  from py_rfind_sound[of 0 1000 long_text "''. ''"] len this
  have r: "?r + 2 \<le> 1000" "marker_at long_text ''. '' ?r" by simp_all
  from marker_at_first[OF r(2)] have dot: "long_text ! nat ?r = CHR ''.''" by simp
  have "?r < 4"
  proof (rule ccontr)
    assume "\<not> ?r < 4"
    then have "4 \<le> nat ?r" "nat ?r < 1104" using r(1) by simp_all
    from long_text_tail[OF this] dot show False by simp
  qed
  with ge have "?r = 2 \<or> ?r = 3" by arith
  moreover have "long_text ! 3 \<noteq> CHR ''.''" by (simp add: long_text_def)
  ultimately show ?thesis using dot by (auto simp: numeral_3_eq_3)
qed

lemma long_text_end_first: "chunk_end 1000 long_text 0 = 3"
  by (simp add: chunk_end_def long_text_length markers_def long_text_rfind)

lemma long_text_end_negative:
  assumes "- 300 \<le> start" "start \<le> - 100"
  shows "chunk_end 1000 long_text start = 0"
proof -
  have "py_rfind long_text ''. '' start (start + 1000) = - 1"
    using assms
    by (simp add: py_rfind_def py_adjust_start_def py_adjust_end_def long_text_length Let_def)
  with assms show ?thesis
    by (simp add: chunk_end_def long_text_length markers_def)
qed

lemma long_text_stuck:
  "cs_start st = - 200 \<Longrightarrow> chunk_loop fuel 1000 200 long_text md st = None"
proof (induction fuel arbitrary: st)
  case 0
  show ?case by simp
next
  case (Suc fuel)
  have "cs_start (chunk_step 1000 200 long_text md st) = - 200"
    using Suc.prems long_text_end_negative[of "- 200"]
    by (simp add: chunk_step_def Let_def long_text_length)
  then show ?case
    using Suc.IH Suc.prems by (simp add: long_text_length)
qed

lemma long_text_second:
  "cs_start st = - 197 \<Longrightarrow> chunk_loop fuel 1000 200 long_text md st = None"
proof (cases fuel)
  case 0
  then show ?thesis by simp
next
  case (Suc k)
  assume s: "cs_start st = - 197"
  have "cs_start (chunk_step 1000 200 long_text md st) = - 200"
    using s long_text_end_negative[of "- 197"]
    by (simp add: chunk_step_def Let_def long_text_length)
  from long_text_stuck[OF this] show ?thesis
    using Suc s by (simp add: long_text_length)
qed

lemma chunk_text_diverges_default:
  "chunk_text_fuel fuel 1000 200 long_text md = None"
proof (cases fuel)
  case 0
  then show ?thesis by (simp add: chunk_text_fuel_def long_text_def)
next
  case (Suc k)
  let ?st = "\<lparr>cs_start = 0, cs_chunk_id = 0, cs_chunks = []\<rparr>"
  have "cs_start (chunk_step 1000 200 long_text md ?st) = - 197"
    by (simp add: chunk_step_def Let_def long_text_length long_text_end_first)
  from long_text_second[OF this] have "chunk_loop k 1000 200 long_text md
      (chunk_step 1000 200 long_text md ?st) = None" .
  moreover have "long_text \<noteq> []" by (simp add: long_text_def)
  ultimately show ?thesis
    using Suc by (simp add: chunk_text_fuel_def long_text_length)
qed

text \<open>
  Claim C2 (chunker termination) does not hold of the code: on two inputs with an overlap
  below the size, no amount of fuel yields a result.

  With the configured size 1000 and overlap 200, on a text of 1104 characters that starts
  with \<open>ab. \<close> and has no other marker: the boundary search moves the first end from
  1000 back to 3, and the advance rule sets \<open>start\<close> to \<open>3 - 200 = -197\<close>. From a
  negative \<open>start\<close> the search window is empty, \<open>rfind\<close> answers \<open>-1\<close>, which
  passes the test \<open>pos > start\<close>, the end becomes 0, the slice is empty, and \<open>start\<close>
  becomes \<open>0 - 200 = -200\<close>, where it stays.

  With size 10 and overlap 3, on \<open>ab. cdefghijklmnopqrstuvwxyz\<close>: the first end moves
  from 10 back to 3, \<open>start\<close> becomes \<open>3 - 3 = 0\<close> again, and the first iteration is
  repeated for ever.
\<close>

theorem chunk_text_diverges:
  "chunk_text_fuel fuel 1000 200 long_text md = None \<and>
   chunk_text_fuel fuel 10 3 ''ab. cdefghijklmnopqrstuvwxyz'' md = None"
  using chunk_text_diverges_default chunk_text_diverges_small by simp

lemma similarity_loop_Inr:
  "similarity_loop q (linalg_norm q) cs acc = Inr sims \<Longrightarrow>
     sims = acc @ map (scored q)
              (filter (\<lambda>c. linalg_norm (d_embedding c) > 0 \<and> linalg_norm q > 0) cs)"
proof (induction cs arbitrary: acc)
  case Nil
  then show ?case by simp
next
  case (Cons c cs)
  show ?case
  proof (cases "linalg_norm (d_embedding c) > 0 \<and> linalg_norm q > 0")
    case True
    with Cons.prems obtain d where d: "np_dot q (d_embedding c) = Inr d"
      and rest: "similarity_loop q (linalg_norm q) cs
                   (acc @ [(c, d / (linalg_norm q * linalg_norm (d_embedding c)))]) = Inr sims"
      by (auto simp: Let_def split: sum.splits)
    from d have "d = dotp q (d_embedding c)"
      by (simp add: np_dot_def split: if_splits)
    with Cons.IH[OF rest] True show ?thesis by (simp add: scored_def)
  next
    case False
    with Cons.prems have "similarity_loop q (linalg_norm q) cs acc = Inr sims"
      by (auto simp: Let_def)
    from Cons.IH[OF this] False show ?thesis by auto
  qed
qed

lemma similarity_loop_zero_query:
  "qn = 0 \<Longrightarrow> similarity_loop q qn cs acc = Inr acc"
  by (induction cs arbitrary: acc) (simp_all add: Let_def)

lemma similarity_loop_filter:
  "similarity_loop q qn (filter (\<lambda>c. linalg_norm (d_embedding c) \<noteq> 0) cs) acc =
   similarity_loop q qn cs acc"
proof (induction cs arbitrary: acc)
  case Nil
  show ?case by simp
next
  case (Cons c cs)
  then show ?case by (auto simp: Let_def split: sum.splits)
qed

lemma py_take_empty: "py_take k [] = []"
  by (simp add: py_take_def)

lemma sort_desc_empty: "sort_desc [] = []"
  by (simp add: sort_desc_def)

lemma set_py_take: "set (py_take k xs) \<subseteq> set xs"
  by (simp add: py_take_def set_take_subset)

lemma set_sort_desc: "set (sort_desc xs) = set xs"
  by (simp add: sort_desc_def)

lemma search_zero_query:
  "linalg_norm q = 0 \<Longrightarrow> cosine_similarity_search chunks q k = Inr []"
  by (simp add: cosine_similarity_search_def similarity_loop_zero_query py_take_empty sort_desc_empty)

lemma search_filter:
  "cosine_similarity_search (filter (\<lambda>c. linalg_norm (d_embedding c) \<noteq> 0) chunks) q k =
   cosine_similarity_search chunks q k"
proof (cases "filter (\<lambda>c. linalg_norm (d_embedding c) \<noteq> 0) chunks = []")
  case True
  then have "\<forall>c\<in>set chunks. \<not> (linalg_norm (d_embedding c) > 0 \<and> linalg_norm q > 0)"
    by (auto simp: filter_empty_conv)
  then have "similarity_loop q (linalg_norm q) chunks [] = Inr []"
    using similarity_loop_filter[of q "linalg_norm q" chunks "[]"] True by simp
  with True show ?thesis
    by (simp add: cosine_similarity_search_def py_take_empty sort_desc_empty)
next
  case False
  then have "chunks \<noteq> []" by auto
  with False show ?thesis
    by (simp add: cosine_similarity_search_def similarity_loop_filter)
qed

lemma search_members:
  assumes "cosine_similarity_search chunks q k = Inr rs" "r \<in> set rs"
  shows "\<exists>c\<in>set chunks. linalg_norm (d_embedding c) > 0 \<and> linalg_norm q > 0 \<and>
           r = mk_result (c, dotp q (d_embedding c) / (linalg_norm q * linalg_norm (d_embedding c)))"
proof (cases "chunks = []")
  case True
  with assms show ?thesis by (simp add: cosine_similarity_search_def)
next
  case False
  with assms(1) obtain sims where
    sims: "similarity_loop q (linalg_norm q) chunks [] = Inr sims"
    and rs: "rs = map mk_result (py_take k (sort_desc sims))"
    by (auto simp: cosine_similarity_search_def split: sum.splits)
  from assms(2) rs obtain x where x: "x \<in> set sims" "r = mk_result x"
    using set_py_take[of k "sort_desc sims"] by (auto simp: set_sort_desc)
  from similarity_loop_Inr[OF sims] x show ?thesis
    by (auto simp: scored_def)
qed

text \<open>
  Claim C4 (zero-norm similarity), as the code has it. A query whose embedding has norm 0
  returns the empty list; chunks whose embedding has norm 0 have no effect on the result
  (the search on all chunks equals the search on those with a norm other than 0); and every
  result comes from a chunk with a positive norm, under a query with a positive norm, with
  the score \<open>dot(q, c) / (|q| * |c|)\<close>. No case divides by zero or raises for a zero norm.
\<close>

theorem zero_norm_excluded:
  "(linalg_norm q = 0 \<longrightarrow> cosine_similarity_search chunks q k = Inr []) \<and>
   cosine_similarity_search chunks q k =
     cosine_similarity_search (filter (\<lambda>c. linalg_norm (d_embedding c) \<noteq> 0) chunks) q k \<and>
   (\<forall>rs r. cosine_similarity_search chunks q k = Inr rs \<and> r \<in> set rs \<longrightarrow>
      (\<exists>c\<in>set chunks. linalg_norm (d_embedding c) > 0 \<and> linalg_norm q > 0 \<and>
         r = mk_result (c, dotp q (d_embedding c) / (linalg_norm q * linalg_norm (d_embedding c)))))"
  using search_zero_query search_filter search_members by (intro conjI impI allI) auto

text \<open>
  Claim C4 as stated fails: an indexed chunk with the zero vector as embedding is missing
  from the result of a query with \<open>k = 5\<close>, where the specification's similarity would
  list it with score 0.
\<close>

theorem zero_norm_counterexample:
  "cosine_similarity_search
     [\<lparr>d_doc_id = ''doc'', d_chunk_id = 0, d_text = ''t'', d_metadata = None, d_embedding = [0, 0]\<rparr>]
     [1, 0] 5 = Inr [] \<and>
   spec_search
     [\<lparr>d_doc_id = ''doc'', d_chunk_id = 0, d_text = ''t'', d_metadata = None, d_embedding = [0, 0]\<rparr>]
     [1, 0] 5 =
     [\<lparr>r_doc_id = ''doc'', r_chunk_id = 0, r_text = ''t'', r_metadata = [], similarity_score = 0\<rparr>]"
  by (simp add: cosine_similarity_search_def spec_search_def spec_similarity_def linalg_norm_def
      sort_desc_def py_take_def py_adjust_end_def mk_result_def)

text \<open>A zero query, and a collection with one zero chunk and one unit chunk.\<close>

theorem zero_norm_excluded_witness:
  "linalg_norm [0, 0] = 0 \<and>
   cosine_similarity_search
     [\<lparr>d_doc_id = ''doc'', d_chunk_id = 1, d_text = ''t'', d_metadata = None, d_embedding = [1, 0]\<rparr>]
     [0, 0] 5 = Inr [] \<and>
   cosine_similarity_search
     [\<lparr>d_doc_id = ''doc'', d_chunk_id = 0, d_text = ''z'', d_metadata = None, d_embedding = [0, 0]\<rparr>,
      \<lparr>d_doc_id = ''doc'', d_chunk_id = 1, d_text = ''t'', d_metadata = None, d_embedding = [1, 0]\<rparr>]
     [1, 0] 5 =
     Inr [\<lparr>r_doc_id = ''doc'', r_chunk_id = 1, r_text = ''t'', r_metadata = [], similarity_score = 1\<rparr>] \<and>
   (\<exists>c\<in>set [\<lparr>d_doc_id = ''doc'', d_chunk_id = 0, d_text = ''z'', d_metadata = None, d_embedding = [0, 0]\<rparr>,
              \<lparr>d_doc_id = ''doc'', d_chunk_id = 1, d_text = ''t'', d_metadata = None, d_embedding = [1, 0]\<rparr>].
      linalg_norm (d_embedding c) > 0 \<and> linalg_norm [1, 0] > 0 \<and>
      \<lparr>r_doc_id = ''doc'', r_chunk_id = 1, r_text = ''t'', r_metadata = [], similarity_score = 1\<rparr> =
        mk_result (c, dotp [1, 0] (d_embedding c) / (linalg_norm [1, 0] * linalg_norm (d_embedding c))))"
proof -
  let ?c0 = "\<lparr>d_doc_id = ''doc'', d_chunk_id = 0, d_text = ''z'', d_metadata = None, d_embedding = [0, 0]\<rparr>"
  let ?c1 = "\<lparr>d_doc_id = ''doc'', d_chunk_id = 1, d_text = ''t'', d_metadata = None, d_embedding = [1, 0]\<rparr>"
  let ?r1 = "\<lparr>r_doc_id = ''doc'', r_chunk_id = 1, r_text = ''t'', r_metadata = [], similarity_score = 1\<rparr>"
  have n: "linalg_norm [0, 0] = 0" by (simp add: linalg_norm_def)
  have a: "cosine_similarity_search [?c1] [0, 0] 5 = Inr []"
    using zero_norm_excluded[of "[0, 0]" "[?c1]" 5] n by simp
  have s: "cosine_similarity_search [?c0, ?c1] [1, 0] 5 = Inr [?r1]"
    by (simp add: cosine_similarity_search_def linalg_norm_def np_dot_def dotp_def
        sort_desc_def py_take_def py_adjust_end_def mk_result_def)
  have "?r1 \<in> set [?r1]" by simp
  with s zero_norm_excluded[of "[1, 0]" "[?c0, ?c1]" 5]
  have "\<exists>c\<in>set [?c0, ?c1]. linalg_norm (d_embedding c) > 0 \<and> linalg_norm [1, 0] > 0 \<and>
      ?r1 = mk_result (c, dotp [1, 0] (d_embedding c) / (linalg_norm [1, 0] * linalg_norm (d_embedding c)))"
    by blast
  with n a s show ?thesis by blast
qed

lemma sorted_sort_desc: "sorted_wrt (\<lambda>x y. snd x \<ge> snd y) (sort_desc xs)"
proof -
  have "sorted (map (\<lambda>x. - snd x) (sort_desc xs))"
    by (simp add: sort_desc_def)
  then show ?thesis
    by (simp add: sorted_map sorted_wrt_iff_nth_less)
qed

lemma filter_sort_desc: "filter (\<lambda>x. snd x = s) (sort_desc xs) = filter (\<lambda>x. snd x = s) xs"
  using sort_key_stable[of "\<lambda>x. - snd x" "- s" xs] by (simp add: sort_desc_def)

lemma prefix_filter_take: "prefix (filter P (take n xs)) (filter P xs)"
proof -
  have "filter P xs = filter P (take n xs) @ filter P (drop n xs)"
    by (metis append_take_drop_id filter_append)
  then show ?thesis by (simp add: prefix_def)
qed

lemma length_py_take: "0 \<le> k \<Longrightarrow> length (py_take k xs) \<le> nat k"
  by (auto simp: py_take_def py_adjust_end_def)

text \<open>
  Claim C5 (retrieval ordering). For \<open>k \<ge> 0\<close>, a search that returns has at most \<open>k\<close>
  results, their scores never increase along the list, and for every score the results
  with exactly that score are an initial segment of the chunks with that score, taken in
  the order in which the chunk collection lists them (each chunk that passes the guard
  with its cosine score): tied entries keep their insertion order.
\<close>

theorem retrieval_ordering:
  assumes "0 \<le> k" "cosine_similarity_search chunks q k = Inr rs"
  shows "length rs \<le> nat k \<and>
         sorted_wrt (\<lambda>a b. similarity_score a \<ge> similarity_score b) rs \<and>
         (\<forall>s. prefix (filter (\<lambda>r. similarity_score r = s) rs)
                     (filter (\<lambda>r. similarity_score r = s)
                        (map (\<lambda>c. mk_result (scored q c))
                           (filter (\<lambda>c. linalg_norm (d_embedding c) > 0 \<and> linalg_norm q > 0)
                              chunks))))"
proof (cases "chunks = []")
  case True
  with assms show ?thesis by (simp add: cosine_similarity_search_def)
next
  case False
  let ?cands = "map (scored q)
      (filter (\<lambda>c. linalg_norm (d_embedding c) > 0 \<and> linalg_norm q > 0) chunks)"
  from False assms(2) obtain sims where
    sims: "similarity_loop q (linalg_norm q) chunks [] = Inr sims"
    and rs: "rs = map mk_result (py_take k (sort_desc sims))"
    by (auto simp: cosine_similarity_search_def split: sum.splits)
  from similarity_loop_Inr[OF sims] have cands: "sims = ?cands" by simp
  have sc: "similarity_score (mk_result x) = snd x" for x
    by (simp add: mk_result_def)
  have len: "length rs \<le> nat k"
    using length_py_take[OF assms(1)] by (simp add: rs)
  have "sorted_wrt (\<lambda>x y. snd x \<ge> snd y) (py_take k (sort_desc sims))"
    unfolding py_take_def using sorted_sort_desc by (rule sorted_wrt_take)
  then have srt: "sorted_wrt (\<lambda>a b. similarity_score a \<ge> similarity_score b) rs"
    by (simp add: rs sorted_wrt_map sc)
  have ties: "prefix (filter (\<lambda>r. similarity_score r = s) rs)
                     (filter (\<lambda>r. similarity_score r = s)
                        (map (\<lambda>c. mk_result (scored q c))
                           (filter (\<lambda>c. linalg_norm (d_embedding c) > 0 \<and> linalg_norm q > 0)
                              chunks)))" for s
  proof -
    have "prefix (filter (\<lambda>x. snd x = s) (py_take k (sort_desc sims)))
                 (filter (\<lambda>x. snd x = s) (sort_desc sims))"
      unfolding py_take_def by (rule prefix_filter_take)
    then have "prefix (filter (\<lambda>x. snd x = s) (py_take k (sort_desc sims)))
                      (filter (\<lambda>x. snd x = s) ?cands)"
      by (simp add: filter_sort_desc cands)
    then have "prefix (map mk_result (filter (\<lambda>x. snd x = s) (py_take k (sort_desc sims))))
                      (map mk_result (filter (\<lambda>x. snd x = s) ?cands))"
      by (rule map_mono_prefix)
    then show ?thesis
      by (simp add: rs filter_map comp_def sc)
  qed
  from len srt ties show ?thesis by blast
qed

text \<open>
  Three chunks, the second and third tied at score 1: with \<open>k = 2\<close> both are returned,
  the second before the third, as the collection lists them.
\<close>

theorem retrieval_ordering_witness:
  "(0::int) \<le> 2 \<and>
   cosine_similarity_search
     [\<lparr>d_doc_id = ''doc'', d_chunk_id = 0, d_text = ''a'', d_metadata = None, d_embedding = [0, 1]\<rparr>,
      \<lparr>d_doc_id = ''doc'', d_chunk_id = 1, d_text = ''b'', d_metadata = None, d_embedding = [2, 0]\<rparr>,
      \<lparr>d_doc_id = ''doc'', d_chunk_id = 2, d_text = ''c'', d_metadata = None, d_embedding = [1, 0]\<rparr>]
     [1, 0] 2 =
     Inr [\<lparr>r_doc_id = ''doc'', r_chunk_id = 1, r_text = ''b'', r_metadata = [], similarity_score = 1\<rparr>,
          \<lparr>r_doc_id = ''doc'', r_chunk_id = 2, r_text = ''c'', r_metadata = [], similarity_score = 1\<rparr>] \<and>
   length [\<lparr>r_doc_id = ''doc'', r_chunk_id = 1, r_text = ''b'', r_metadata = [], similarity_score = 1\<rparr>,
           \<lparr>r_doc_id = ''doc'', r_chunk_id = 2, r_text = ''c'', r_metadata = [], similarity_score = 1\<rparr>]
     \<le> nat 2 \<and>
   prefix
     [\<lparr>r_doc_id = ''doc'', r_chunk_id = 1, r_text = ''b'', r_metadata = [], similarity_score = 1\<rparr>,
      \<lparr>r_doc_id = ''doc'', r_chunk_id = 2, r_text = ''c'', r_metadata = [], similarity_score = 1\<rparr>]
     (filter (\<lambda>r. similarity_score r = 1)
        (map (\<lambda>c. mk_result (scored [1, 0] c))
           (filter (\<lambda>c. linalg_norm (d_embedding c) > 0 \<and> linalg_norm [1, 0] > 0)
     [\<lparr>d_doc_id = ''doc'', d_chunk_id = 0, d_text = ''a'', d_metadata = None, d_embedding = [0, 1]\<rparr>,
      \<lparr>d_doc_id = ''doc'', d_chunk_id = 1, d_text = ''b'', d_metadata = None, d_embedding = [2, 0]\<rparr>,
      \<lparr>d_doc_id = ''doc'', d_chunk_id = 2, d_text = ''c'', d_metadata = None, d_embedding = [1, 0]\<rparr>])))"
proof -
  let ?cs = "[\<lparr>d_doc_id = ''doc'', d_chunk_id = 0, d_text = ''a'', d_metadata = None, d_embedding = [0, 1]\<rparr>,
      \<lparr>d_doc_id = ''doc'', d_chunk_id = 1, d_text = ''b'', d_metadata = None, d_embedding = [2, 0]\<rparr>,
      \<lparr>d_doc_id = ''doc'', d_chunk_id = 2, d_text = ''c'', d_metadata = None, d_embedding = [1, 0]\<rparr>]"
  let ?rb = "\<lparr>r_doc_id = ''doc'', r_chunk_id = 1, r_text = ''b'', r_metadata = [], similarity_score = 1\<rparr>"
  let ?rc = "\<lparr>r_doc_id = ''doc'', r_chunk_id = 2, r_text = ''c'', r_metadata = [], similarity_score = 1\<rparr>"
  have s: "cosine_similarity_search ?cs [1, 0] 2 = Inr [?rb, ?rc]"
    by (simp add: cosine_similarity_search_def linalg_norm_def np_dot_def dotp_def
        sort_desc_def py_take_def py_adjust_end_def mk_result_def)
  have k: "(0::int) \<le> 2" by simp
  have f: "filter (\<lambda>r. similarity_score r = 1) [?rb, ?rc] = [?rb, ?rc]" by simp
  from retrieval_ordering[OF k s]
  have "prefix (filter (\<lambda>r. similarity_score r = 1) [?rb, ?rc])
     (filter (\<lambda>r. similarity_score r = 1)
        (map (\<lambda>c. mk_result (scored [1, 0] c))
           (filter (\<lambda>c. linalg_norm (d_embedding c) > 0 \<and> linalg_norm [1, 0] > 0) ?cs)))"
    by blast
  then have p: "prefix [?rb, ?rc]
     (filter (\<lambda>r. similarity_score r = 1)
        (map (\<lambda>c. mk_result (scored [1, 0] c))
           (filter (\<lambda>c. linalg_norm (d_embedding c) > 0 \<and> linalg_norm [1, 0] > 0) ?cs)))"
    by (simp only: f)
  from retrieval_ordering[OF k s] have "length [?rb, ?rc] \<le> nat 2" by blast
  with k s p show ?thesis by blast
qed










lemma assess_no_chunks:
  assumes "retrieve env (fact_text f) None = Inr []"
  shows "assess_fact env f w =
     (Inr (default_assessment ''No relevant literature found''),
      w\<lparr>events := events w @ [EvAssess (fact_number f)]\<rparr>)"
  using assms by (simp add: assess_fact_def Let_def)



lemma wf_checkpointD:
  assumes "wf_checkpoint cp"
  shows "map_of cp ''facts_processed'' = Some (JInt (processed_count cp))"
    and "map_of cp ''failed_facts'' = None \<or> map_of cp ''failed_facts'' = Some (JArr (failed_list cp))"
  using assms
  by (auto simp: wf_checkpoint_def processed_count_def failed_list_def
      split: option.splits json.splits)

lemma update_checkpoint_success:
  assumes "wf_checkpoint cp"
  shows "update_checkpoint now ok cp n True cf =
     (None,
      AList.update ''last_updated'' (JStr now)
        (AList.update ''facts_processed'' (JInt (processed_count cp + 1))
          (AList.update ''last_completed_fact'' (JInt n) cp)),
      write_file ok (AList.update ''last_updated'' (JStr now)
        (AList.update ''facts_processed'' (JInt (processed_count cp + 1))
          (AList.update ''last_completed_fact'' (JInt n) cp))) cf)"
  using wf_checkpointD(1)[OF assms]
  by (simp add: update_checkpoint_def Let_def update_conv' save_checkpoint_def)

lemma update_checkpoint_failure:
  assumes "wf_checkpoint cp"
  shows "\<exists>cp'. update_checkpoint now ok cp n False cf =
           (None, cp', write_file ok cp' cf) \<and>
         map_of cp' = (map_of cp)(''last_completed_fact'' \<mapsto> JInt n,
                        ''facts_processed'' \<mapsto> JInt (processed_count cp + 1),
                        ''failed_facts'' \<mapsto> JArr (failed_list cp @ [JInt n]),
                        ''last_updated'' \<mapsto> JStr now)"
proof -
  note fp = wf_checkpointD(1)[OF assms]
  from wf_checkpointD(2)[OF assms] show ?thesis
  proof
    assume none: "map_of cp ''failed_facts'' = None"
    then have fl: "failed_list cp = []" by (simp add: failed_list_def)
    show ?thesis using fp none fl
      by (simp add: update_checkpoint_def Let_def update_conv' save_checkpoint_def fun_upd_twist)
  next
    assume some: "map_of cp ''failed_facts'' = Some (JArr (failed_list cp))"
    show ?thesis using fp some
      by (simp add: update_checkpoint_def Let_def update_conv' save_checkpoint_def)
  qed
qed

text \<open>
  Claim C10 (frame of the checkpoint update). On a checkpoint in the persisted format,
  \<open>update_checkpoint\<close> does not raise; it sets \<open>last_completed_fact\<close> to \<open>n\<close>, adds
  exactly 1 to \<open>facts_processed\<close> whatever \<open>success\<close> is, stamps \<open>last_updated\<close>, appends
  \<open>n\<close> to \<open>failed_facts\<close> when \<open>success\<close> is false and leaves \<open>failed_facts\<close> as it
  is otherwise; \<open>total_facts\<close>, \<open>started_at\<close> and every other key keep their values.
\<close>

theorem update_checkpoint_frame:
  assumes "wf_checkpoint cp"
  shows "\<exists>cp'. update_checkpoint now ok cp n success cf =
           (None, cp', write_file ok cp' cf) \<and>
         map_of cp' ''last_completed_fact'' = Some (JInt n) \<and>
         map_of cp' ''facts_processed'' = Some (JInt (processed_count cp + 1)) \<and>
         map_of cp' ''last_updated'' = Some (JStr now) \<and>
         (success \<longrightarrow> map_of cp' ''failed_facts'' = map_of cp ''failed_facts'') \<and>
         (\<not> success \<longrightarrow> map_of cp' ''failed_facts'' = Some (JArr (failed_list cp @ [JInt n]))) \<and>
         map_of cp' ''total_facts'' = map_of cp ''total_facts'' \<and>
         map_of cp' ''started_at'' = map_of cp ''started_at'' \<and>
         (\<forall>key. key \<notin> {''last_completed_fact'', ''facts_processed'', ''failed_facts'', ''last_updated''}
            \<longrightarrow> map_of cp' key = map_of cp key)"
proof (cases success)
  case True
  with update_checkpoint_success[OF assms, of now ok n cf] show ?thesis
    by (simp add: update_conv')
next
  case False
  from update_checkpoint_failure[OF assms, of now ok n cf] obtain cp' where
    "update_checkpoint now ok cp n False cf = (None, cp', write_file ok cp' cf)"
    "map_of cp' = (map_of cp)(''last_completed_fact'' \<mapsto> JInt n,
                        ''facts_processed'' \<mapsto> JInt (processed_count cp + 1),
                        ''failed_facts'' \<mapsto> JArr (failed_list cp @ [JInt n]),
                        ''last_updated'' \<mapsto> JStr now)" by blast
  with False show ?thesis by simp
qed

lemma matches_keyed: "matches [(''fact_number'', JInt n)] doc = keyed_by n doc"
  by (simp add: matches_def keyed_by_def)

lemma set_fields_lookup:
  "map_of (set_fields (assessment_fields n a t now) doc) =
     (map_of doc)(''fact_number'' \<mapsto> JInt n, ''assessment_result'' \<mapsto> JObj a,
        ''processing_time_seconds'' \<mapsto> JFloat t, ''llm_model'' \<mapsto> JStr LLM_MODEL,
        ''created_at'' \<mapsto> JStr now)"
  by (simp add: set_fields_def assessment_fields_def update_conv')

lemma set_fields_keyed: "keyed_by n (set_fields (assessment_fields n a t now) doc)"
  by (simp add: keyed_by_def set_fields_lookup)

lemma set_fields_result:
  "map_of (set_fields (assessment_fields n a t now) doc) ''assessment_result'' = Some (JObj a)"
  by (simp add: set_fields_lookup)

lemma update_first_None:
  "update_first [(''fact_number'', JInt n)] upd coll = None \<longleftrightarrow> filter (keyed_by n) coll = []"
  by (induction coll) (auto simp: matches_keyed)

lemma update_first_Some:
  "update_first [(''fact_number'', JInt n)] (assessment_fields n a t now) coll = Some coll' \<Longrightarrow>
     length coll' = length coll \<and>
     (\<exists>d ds. filter (keyed_by n) coll = d # ds \<and>
        filter (keyed_by n) coll' = set_fields (assessment_fields n a t now) d # ds)"
proof (induction coll arbitrary: coll')
  case Nil
  then show ?case by simp
next
  case (Cons doc docs)
  show ?case
  proof (cases "keyed_by n doc")
    case True
    with Cons.prems show ?thesis
      by (auto simp: matches_keyed set_fields_keyed)
  next
    case False
    with Cons.prems obtain rest where
      rest: "update_first [(''fact_number'', JInt n)] (assessment_fields n a t now) docs = Some rest"
      and c: "coll' = doc # rest"
      by (auto simp: matches_keyed)
    from Cons.IH[OF rest] False c show ?thesis by simp
  qed
qed

lemma upsert_assessment_keyed:
  "filter (keyed_by n) (upsert_assessment n a t now coll) =
     (case filter (keyed_by n) coll of
        [] \<Rightarrow> [set_fields (assessment_fields n a t now) [(''fact_number'', JInt n)]]
      | d # ds \<Rightarrow> set_fields (assessment_fields n a t now) d # ds)"
proof (cases "update_first [(''fact_number'', JInt n)] (assessment_fields n a t now) coll")
  case None
  then have e: "filter (keyed_by n) coll = []" by (simp add: update_first_None)
  with None show ?thesis
    by (simp add: upsert_assessment_def update_one_upsert_def
        set_fields_keyed)
next
  case (Some coll')
  from update_first_Some[OF Some] Some show ?thesis
    by (auto simp: upsert_assessment_def update_one_upsert_def )
qed

lemma upsert_assessment_length:
  "filter (keyed_by n) coll \<noteq> [] \<Longrightarrow>
     length (upsert_assessment n a t now coll) = length coll"
proof -
  assume ne: "filter (keyed_by n) coll \<noteq> []"
  then obtain coll' where
    s: "update_first [(''fact_number'', JInt n)] (assessment_fields n a t now) coll = Some coll'"
    using update_first_None[of n "assessment_fields n a t now" coll] by auto
  from update_first_Some[OF s] s show ?thesis
    by (simp add: upsert_assessment_def update_one_upsert_def )
qed

text \<open>
  Claim C9 (idempotent result upsert). In a collection that holds at most one record for
  claim \<open>n\<close> (the collection's unique index), upserting \<open>(n, A1)\<close> and then \<open>(n, A2)\<close>
  leaves exactly one record keyed by \<open>n\<close>, whose assessment is \<open>A2\<close>; the second upsert
  adds no record.
\<close>

theorem upsert_idempotent:
  assumes "length (filter (keyed_by n) coll) \<le> 1"
  shows "\<exists>d. filter (keyed_by n)
               (upsert_assessment n A2 t2 now2 (upsert_assessment n A1 t1 now1 coll)) = [d] \<and>
             map_of d ''assessment_result'' = Some (JObj A2) \<and>
             length (upsert_assessment n A2 t2 now2 (upsert_assessment n A1 t1 now1 coll)) =
               length (upsert_assessment n A1 t1 now1 coll)"
proof -
  let ?c1 = "upsert_assessment n A1 t1 now1 coll"
  from assms have "\<exists>d1. filter (keyed_by n) ?c1 = [d1]"
    by (cases "filter (keyed_by n) coll") (auto simp: upsert_assessment_keyed)
  then obtain d1 where d1: "filter (keyed_by n) ?c1 = [d1]" by blast
  then have "filter (keyed_by n) (upsert_assessment n A2 t2 now2 ?c1) =
      [set_fields (assessment_fields n A2 t2 now2) d1]"
    by (simp add: upsert_assessment_keyed)
  moreover have "length (upsert_assessment n A2 t2 now2 ?c1) = length ?c1"
    using d1 by (simp add: upsert_assessment_length)
  ultimately show ?thesis by (simp add: set_fields_result)
qed

lemma facts_to_process_int:
  "facts_to_process facts (JInt m) = Inr (filter (\<lambda>f. fact_number f > m) facts)"
  by (induction facts) simp_all

lemma try_generate_frame:
  "try_generate env prompt sp w = (r, w') \<Longrightarrow>
     events w' = events w \<and> assessments w' = assessments w \<and>
     csv_updates w' = csv_updates w \<and> checkpoint_file w' = checkpoint_file w"
  by (auto simp: try_generate_def generate_def Let_def split: sum.splits option.splits)

lemma generate_json_loop_frame:
  "generate_json_loop env prompt sp m atts w = (r, w') \<Longrightarrow>
     events w' = events w \<and> assessments w' = assessments w \<and>
     csv_updates w' = csv_updates w \<and> checkpoint_file w' = checkpoint_file w"
proof (induction atts arbitrary: w)
  case Nil
  then show ?case by simp
next
  case (Cons a atts)
  obtain r1 w1 where eq: "try_generate env prompt sp w = (r1, w1)"
    by (cases "try_generate env prompt sp w")
  note fr = try_generate_frame[OF eq]
  show ?case
  proof (cases "\<exists>e. r1 = Inl e \<and> is_JSONDecodeError e \<and> int a \<noteq> m - 1")
    case True
    with eq Cons.prems have "generate_json_loop env prompt sp m atts w1 = (r, w')" by auto
    from Cons.IH[OF this] fr show ?thesis by simp
  next
    case False
    with eq Cons.prems have "w' = w1" by (cases r1) (auto split: if_splits)
    with fr show ?thesis by simp
  qed
qed

lemma generate_json_frame:
  "generate_json env prompt sp m w = (r, w') \<Longrightarrow>
     events w' = events w \<and> assessments w' = assessments w \<and>
     csv_updates w' = csv_updates w \<and> checkpoint_file w' = checkpoint_file w"
  unfolding generate_json_def by (rule generate_json_loop_frame)

lemma assess_fact_frame:
  assumes "assess_fact env f w = (r, w')"
  shows "events w' = events w @ [EvAssess (fact_number f)] \<and> assessments w' = assessments w \<and>
         csv_updates w' = csv_updates w \<and> checkpoint_file w' = checkpoint_file w"
proof (cases "retrieve env (fact_text f) None")
  case (Inl e)
  with assms show ?thesis by (auto simp: assess_fact_def Let_def)
next
  case (Inr chunks)
  show ?thesis
  proof (cases chunks)
    case Nil
    with Inr assms show ?thesis by (auto simp: assess_fact_def Let_def)
  next
    case (Cons c cs)
    let ?w0 = "w\<lparr>events := events w @ [EvAssess (fact_number f)]\<rparr>"
    let ?p = "create_prompt (fact_number f) (fact_text f) (build_context env (c # cs))"
    obtain r1 w1 where g: "generate_json env ?p (Some (system_prompt env)) 3 ?w0 = (r1, w1)"
      by (cases "generate_json env ?p (Some (system_prompt env)) 3 ?w0")
    from generate_json_frame[OF g] have fr: "events w1 = events w @ [EvAssess (fact_number f)]"
      "assessments w1 = assessments w" "csv_updates w1 = csv_updates w"
      "checkpoint_file w1 = checkpoint_file w" by simp_all
    from assms Inr Cons g have "w' = w1"
      by (auto simp: assess_fact_def Let_def split: sum.splits json.splits)
    with fr show ?thesis by simp
  qed
qed

lemma assess_fact_Inl:
  "assess_fact env f w = (Inl e, w') \<Longrightarrow> retrieve env (fact_text f) None = Inl e"
  by (auto simp: assess_fact_def Let_def split: sum.splits list.splits prod.splits json.splits)

lemma assess_fact_total:
  "retrieve env (fact_text f) None = Inr cs \<Longrightarrow> \<exists>a w'. assess_fact env f w = (Inr a, w')"
  by (auto simp: assess_fact_def Let_def split: sum.splits list.splits prod.splits json.splits)

lemma try_fact_Inl:
  assumes "try_fact env i f w = (Inl e, w1)"
  shows "checkpoint_file w1 = checkpoint_file w \<and>
         assessed (events w1) = assessed (events w) @ [fact_number f] \<and>
         advanced (events w1) = advanced (events w) \<and>
         (retrieve env (fact_text f) None = Inl e \<or> upsert_error env i = Some e \<or>
          csv_error env i = Some e)"
proof -
  obtain r0 w0 where a: "assess_fact env f w = (r0, w0)" by (cases "assess_fact env f w")
  note fr = assess_fact_frame[OF a]
  show ?thesis
  proof (cases r0)
    case (Inl e0)
    with a assms have "e0 = e" "w1 = w0" by (auto simp: try_fact_def Let_def)
    with fr a Inl assess_fact_Inl[of env f w e w0] show ?thesis
      by (simp add: assessed_def advanced_def)
  next
    case (Inr asm)
    with a assms fr show ?thesis
      by (auto simp: try_fact_def Let_def assessed_def advanced_def split: option.splits)
  qed
qed

lemma try_fact_Inr:
  assumes "try_fact env i f w = (Inr a, w1)"
  shows "checkpoint_file w1 = checkpoint_file w \<and>
         events w1 = events w @ [EvAssess (fact_number f), EvUpsert (fact_number f), EvCsv (fact_number f)] \<and>
         assess_fact env f w = (Inr a, w1\<lparr>assessments := assessments w, csv_updates := csv_updates w,
            events := events w @ [EvAssess (fact_number f)]\<rparr>) \<and>
         assessments w1 = upsert_assessment (fact_number f) a (fact_time env i) (created_at env i) (assessments w) \<and>
         upsert_error env i = None \<and> csv_error env i = None"
proof -
  obtain r0 w0 where a: "assess_fact env f w = (r0, w0)" by (cases "assess_fact env f w")
  note fr = assess_fact_frame[OF a]
  from a assms obtain asm where r0: "r0 = Inr asm"
    by (cases r0) (auto simp: try_fact_def Let_def)
  with a assms fr show ?thesis
    by (auto simp: try_fact_def Let_def split: option.splits)
qed

lemma try_fact_ok:
  assumes "\<forall>e. retrieve env (fact_text f) None \<noteq> Inl e" "upsert_error env i = None"
    "csv_error env i = None"
  shows "\<exists>a w1. try_fact env i f w = (Inr a, w1)"
proof -
  from assms(1) obtain cs where "retrieve env (fact_text f) None = Inr cs"
    by (cases "retrieve env (fact_text f) None") auto
  from assess_fact_total[OF this, of w] obtain a w0 where "assess_fact env f w = (Inr a, w0)"
    by blast
  with assms(2,3) show ?thesis by (simp add: try_fact_def Let_def)
qed


lemma wf_after_success:
  assumes "wf_checkpoint cp"
  shows "wf_checkpoint (AList.update ''last_updated'' (JStr now)
        (AList.update ''facts_processed'' (JInt k)
          (AList.update ''last_completed_fact'' (JInt n) cp)))"
  using assms by (simp add: wf_checkpoint_def update_conv')

lemma process_fact_succeeded:
  assumes "wf_checkpoint cp" "try_fact env i f w = (Inr a, w1)"
  shows "\<exists>cp' w'. process_fact env i f cp w = (None, cp', w') \<and> wf_checkpoint cp' \<and>
           failed_list cp' = failed_list cp \<and>
           processed_count cp' = processed_count cp + 1 \<and>
           last_completed cp' = JInt (fact_number f) \<and>
           events w' = events w1 @ [EvAdvance (fact_number f) True] \<and>
           assessments w' = assessments w1"
  using assms update_checkpoint_success[OF assms(1)] wf_after_success[OF assms(1)]
  by (simp add: process_fact_def Let_def failed_list_def processed_count_def last_completed_def
      update_conv')

lemma process_fact_failed:
  assumes "wf_checkpoint cp" "try_fact env i f w = (Inl e, w1)"
  shows "\<exists>cp' w'. process_fact env i f cp w = (None, cp', w') \<and> wf_checkpoint cp' \<and>
           failed_list cp' = failed_list cp @ [JInt (fact_number f)] \<and>
           processed_count cp' = processed_count cp + 1 \<and>
           last_completed cp' = JInt (fact_number f) \<and>
           events w' = events w1 @ [EvAdvance (fact_number f) False] \<and>
           assessments w' = assessments w1"
proof -
  from update_checkpoint_failure[OF assms(1), of "save_time env i" "write_result env i" "fact_number f"
      "checkpoint_file w1"]
  obtain cp' where u: "update_checkpoint (save_time env i) (write_result env i) cp (fact_number f) False
        (checkpoint_file w1) = (None, cp', write_file (write_result env i) cp' (checkpoint_file w1))"
    and m: "map_of cp' = (map_of cp)(''last_completed_fact'' \<mapsto> JInt (fact_number f),
                        ''facts_processed'' \<mapsto> JInt (processed_count cp + 1),
                        ''failed_facts'' \<mapsto> JArr (failed_list cp @ [JInt (fact_number f)]),
                        ''last_updated'' \<mapsto> JStr (save_time env i))"
    by blast
  from m have "wf_checkpoint cp'" "failed_list cp' = failed_list cp @ [JInt (fact_number f)]"
    "processed_count cp' = processed_count cp + 1" "last_completed cp' = JInt (fact_number f)"
    by (simp_all add: wf_checkpoint_def failed_list_def processed_count_def last_completed_def)
  with assms(2) u show ?thesis
    by (simp add: process_fact_def on_failure_def Let_def)
qed

lemma assessed_append: "assessed (xs @ ys) = assessed xs @ assessed ys"
  by (simp add: assessed_def)

lemma advanced_append: "advanced (xs @ ys) = advanced xs @ advanced ys"
  by (simp add: advanced_def)

lemma process_fact_step:
  assumes "wf_checkpoint cp"
  shows "\<exists>cp' w'. process_fact env i f cp w = (None, cp', w') \<and> wf_checkpoint cp' \<and>
           processed_count cp' = processed_count cp + 1 \<and>
           last_completed cp' = JInt (fact_number f) \<and>
           assessed (events w') = assessed (events w) @ [fact_number f] \<and>
           map fst (advanced (events w')) = map fst (advanced (events w)) @ [fact_number f]"
proof -
  obtain r w1 where t: "try_fact env i f w = (r, w1)" by (cases "try_fact env i f w")
  show ?thesis
  proof (cases r)
    case (Inl e)
    with t have t': "try_fact env i f w = (Inl e, w1)" by simp
    from process_fact_failed[OF assms t'] try_fact_Inl[OF t'] show ?thesis
      by (auto simp: assessed_append advanced_append assessed_def advanced_def)
  next
    case (Inr a)
    with t have t': "try_fact env i f w = (Inr a, w1)" by simp
    from process_fact_succeeded[OF assms t'] try_fact_Inr[OF t'] show ?thesis
      by (auto simp: assessed_append advanced_append assessed_def advanced_def)
  qed
qed

lemma run_loop_all:
  "wf_checkpoint cp \<Longrightarrow>
   \<exists>cp' w'. run_loop env i fs cp w = (None, cp', w') \<and> wf_checkpoint cp' \<and>
     processed_count cp' = processed_count cp + int (length fs) \<and>
     assessed (events w') = assessed (events w) @ map fact_number fs \<and>
     map fst (advanced (events w')) = map fst (advanced (events w)) @ map fact_number fs"
proof (induction fs arbitrary: i cp w)
  case Nil
  then show ?case by simp
next
  case (Cons f fs)
  from process_fact_step[OF Cons.prems, of env i f w] obtain cp1 w1 where
    p: "process_fact env i f cp w = (None, cp1, w1)" and wf1: "wf_checkpoint cp1"
    and c1: "processed_count cp1 = processed_count cp + 1"
    and a1: "assessed (events w1) = assessed (events w) @ [fact_number f]"
    and d1: "map fst (advanced (events w1)) = map fst (advanced (events w)) @ [fact_number f]"
    by blast
  from Cons.IH[OF wf1, of "Suc i" w1] obtain cp' w' where
    r: "run_loop env (Suc i) fs cp1 w1 = (None, cp', w')" and wf': "wf_checkpoint cp'"
    and c: "processed_count cp' = processed_count cp1 + int (length fs)"
    and a: "assessed (events w') = assessed (events w1) @ map fact_number fs"
    and d: "map fst (advanced (events w')) = map fst (advanced (events w1)) @ map fact_number fs"
    by blast
  from p r have "run_loop env i (f # fs) cp w = (None, cp', w')" by simp
  with wf' c c1 a a1 d d1 show ?case by simp
qed

lemma update_first_other:
  assumes "m \<noteq> n"
  shows "update_first [(''fact_number'', JInt n)] (assessment_fields n a t now) coll = Some coll' \<Longrightarrow>
         filter (keyed_by m) coll' = filter (keyed_by m) coll"
proof (induction coll arbitrary: coll')
  case Nil
  then show ?case by simp
next
  case (Cons doc docs)
  show ?case
  proof (cases "keyed_by n doc")
    case True
    then have "\<not> keyed_by m doc" using assms by (simp add: keyed_by_def)
    moreover have "\<not> keyed_by m (set_fields (assessment_fields n a t now) doc)"
      using set_fields_keyed[of n a t now doc] assms by (simp add: keyed_by_def)
    ultimately show ?thesis using Cons.prems True by (auto simp: matches_keyed)
  next
    case False
    with Cons.prems obtain rest where
      rest: "update_first [(''fact_number'', JInt n)] (assessment_fields n a t now) docs = Some rest"
      and c: "coll' = doc # rest"
      by (auto simp: matches_keyed)
    from Cons.IH[OF rest] c show ?thesis by simp
  qed
qed

lemma upsert_other_key:
  assumes "m \<noteq> n"
  shows "filter (keyed_by m) (upsert_assessment n a t now coll) = filter (keyed_by m) coll"
proof (cases "update_first [(''fact_number'', JInt n)] (assessment_fields n a t now) coll")
  case None
  have "\<not> keyed_by m (set_fields (assessment_fields n a t now) [(''fact_number'', JInt n)])"
    using set_fields_keyed[of n a t now "[(''fact_number'', JInt n)]"] assms
    by (simp add: keyed_by_def)
  with None show ?thesis
    by (simp add: upsert_assessment_def update_one_upsert_def)
next
  case (Some coll')
  from update_first_other[OF assms Some] Some show ?thesis
    by (simp add: upsert_assessment_def update_one_upsert_def)
qed

lemma upsert_all_other:
  "m \<notin> fst ` set xs \<Longrightarrow>
     filter (keyed_by m) (upsert_all env i xs coll) = filter (keyed_by m) coll"
proof (induction xs arbitrary: i coll)
  case Nil
  show ?case by simp
next
  case (Cons x xs)
  obtain n a where x: "x = (n, a)" by (cases x)
  with Cons.prems have "m \<noteq> n" "m \<notin> fst ` set xs" by auto
  with Cons.IH[of "Suc i"] x show ?case by (simp add: upsert_other_key)
qed

lemma upsert_stored:
  "stored_at env i n a (upsert_assessment n a (fact_time env i) (created_at env i) coll) \<and>
   length (filter (keyed_by n) (upsert_assessment n a (fact_time env i) (created_at env i) coll)) =
     max 1 (length (filter (keyed_by n) coll))"
  by (cases "filter (keyed_by n) coll")
    (simp_all add: stored_at_def upsert_assessment_keyed set_fields_lookup)

lemma stored_at_cong:
  "filter (keyed_by n) coll' = filter (keyed_by n) coll \<Longrightarrow>
     stored_at env i n a coll' = stored_at env i n a coll"
  by (simp add: stored_at_def)

lemma upsert_all_stored:
  "distinct (map fst xs) \<Longrightarrow> j < length xs \<Longrightarrow>
     stored_at env (i + j) (fst (xs ! j)) (snd (xs ! j)) (upsert_all env i xs coll) \<and>
     length (filter (keyed_by (fst (xs ! j))) (upsert_all env i xs coll)) =
       max 1 (length (filter (keyed_by (fst (xs ! j))) coll))"
proof (induction xs arbitrary: i j coll)
  case Nil
  then show ?case by simp
next
  case (Cons x xs)
  obtain n a where x: "x = (n, a)" by (cases x)
  let ?c1 = "upsert_assessment n a (fact_time env i) (created_at env i) coll"
  from Cons.prems x have nin: "n \<notin> fst ` set xs" and d: "distinct (map fst xs)" by auto
  show ?case
  proof (cases j)
    case 0
    have keep: "filter (keyed_by n) (upsert_all env (Suc i) xs ?c1) = filter (keyed_by n) ?c1"
      by (rule upsert_all_other[OF nin])
    from upsert_stored[of env i n a coll] keep 0 x show ?thesis
      by (simp add: stored_at_cong[OF keep])
  next
    case (Suc j')
    with Cons.prems have j': "j' < length xs" by simp
    then have "fst (xs ! j') \<in> fst ` set xs" by (metis nth_mem imageI)
    with nin have ne: "fst (xs ! j') \<noteq> n" by auto
    from Cons.IH[OF d j', of "Suc i" ?c1] Suc x upsert_other_key[OF ne, of a "fact_time env i" "created_at env i" coll]
    show ?thesis by simp
  qed
qed


lemma process_fact_checkpoint:
  assumes "wf_checkpoint cp"
  shows "\<exists>cp' w'. process_fact env i f cp w = (None, cp', w') \<and> wf_checkpoint cp' \<and>
           processed_count cp' = processed_count cp + 1 \<and>
           map_of cp' ''last_completed_fact'' = Some (JInt (fact_number f)) \<and>
           map_of cp' ''facts_processed'' = Some (JInt (processed_count cp + 1)) \<and>
           map_of cp' ''last_updated'' = Some (JStr (save_time env i)) \<and>
           map_of cp' ''total_facts'' = map_of cp ''total_facts'' \<and>
           map_of cp' ''started_at'' = map_of cp ''started_at'' \<and>
           (write_result env i = WriteOk \<longrightarrow> checkpoint_file w' = Written cp')"
proof -
  obtain r w1 where t: "try_fact env i f w = (r, w1)" by (cases "try_fact env i f w")
  show ?thesis
  proof (cases r)
    case (Inr a)
    let ?cp' = "AList.update ''last_updated'' (JStr (save_time env i))
        (AList.update ''facts_processed'' (JInt (processed_count cp + 1))
          (AList.update ''last_completed_fact'' (JInt (fact_number f)) cp))"
    have wf': "wf_checkpoint ?cp'" by (rule wf_after_success[OF assms])
    have pc: "processed_count ?cp' = processed_count cp + 1"
      by (simp add: processed_count_def update_conv')
    from t Inr update_checkpoint_success[OF assms, of "save_time env i" "write_result env i"
        "fact_number f" "checkpoint_file w1"]
    have "process_fact env i f cp w =
        (None, ?cp', w1\<lparr>checkpoint_file := write_file (write_result env i) ?cp' (checkpoint_file w1),
           events := events w1 @ [EvAdvance (fact_number f) True]\<rparr>)"
      by (simp add: process_fact_def Let_def)
    with wf' pc show ?thesis
      by (simp add: update_conv' write_file_def)
  next
    case (Inl e)
    from update_checkpoint_failure[OF assms, of "save_time env i" "write_result env i"
        "fact_number f" "checkpoint_file w1"]
    obtain cp' where u: "update_checkpoint (save_time env i) (write_result env i) cp (fact_number f)
          False (checkpoint_file w1) =
          (None, cp', write_file (write_result env i) cp' (checkpoint_file w1))"
      and m: "map_of cp' = (map_of cp)(''last_completed_fact'' \<mapsto> JInt (fact_number f),
                        ''facts_processed'' \<mapsto> JInt (processed_count cp + 1),
                        ''failed_facts'' \<mapsto> JArr (failed_list cp @ [JInt (fact_number f)]),
                        ''last_updated'' \<mapsto> JStr (save_time env i))"
      by blast
    from m have "wf_checkpoint cp'" "processed_count cp' = processed_count cp + 1"
      by (simp_all add: wf_checkpoint_def processed_count_def)
    moreover from t Inl u have "process_fact env i f cp w =
        (None, cp', w1\<lparr>checkpoint_file := write_file (write_result env i) cp' (checkpoint_file w1),
           events := events w1 @ [EvAdvance (fact_number f) False]\<rparr>)"
      by (simp add: process_fact_def on_failure_def Let_def)
    ultimately show ?thesis using m by (simp add: write_file_def)
  qed
qed

lemma run_loop_checkpoint:
  "wf_checkpoint cp \<Longrightarrow> fs \<noteq> [] \<Longrightarrow>
   \<exists>cp' w'. run_loop env i fs cp w = (None, cp', w') \<and>
     map_of cp' ''last_completed_fact'' = Some (JInt (fact_number (last fs))) \<and>
     map_of cp' ''facts_processed'' = Some (JInt (processed_count cp + int (length fs))) \<and>
     map_of cp' ''last_updated'' = Some (JStr (save_time env (i + length fs - 1))) \<and>
     map_of cp' ''total_facts'' = map_of cp ''total_facts'' \<and>
     map_of cp' ''started_at'' = map_of cp ''started_at'' \<and>
     (write_result env (i + length fs - 1) = WriteOk \<longrightarrow> checkpoint_file w' = Written cp')"
proof (induction fs arbitrary: i cp w)
  case Nil
  then show ?case by simp
next
  case (Cons f fs)
  from process_fact_checkpoint[OF Cons.prems(1), of env i f w] obtain cp1 w1 where
    p: "process_fact env i f cp w = (None, cp1, w1)" and wf1: "wf_checkpoint cp1"
    and c1: "processed_count cp1 = processed_count cp + 1"
    and m1: "map_of cp1 ''last_completed_fact'' = Some (JInt (fact_number f))"
      "map_of cp1 ''facts_processed'' = Some (JInt (processed_count cp + 1))"
      "map_of cp1 ''last_updated'' = Some (JStr (save_time env i))"
      "map_of cp1 ''total_facts'' = map_of cp ''total_facts''"
      "map_of cp1 ''started_at'' = map_of cp ''started_at''"
    and f1: "write_result env i = WriteOk \<longrightarrow> checkpoint_file w1 = Written cp1"
    by blast
  show ?case
  proof (cases "fs = []")
    case True
    with p m1 f1 show ?thesis by simp
  next
    case False
    from Cons.IH[OF wf1 False, of "Suc i" w1] obtain cp' w' where
      r: "run_loop env (Suc i) fs cp1 w1 = (None, cp', w')"
      and m: "map_of cp' ''last_completed_fact'' = Some (JInt (fact_number (last fs)))"
        "map_of cp' ''facts_processed'' = Some (JInt (processed_count cp1 + int (length fs)))"
        "map_of cp' ''last_updated'' = Some (JStr (save_time env (Suc i + length fs - 1)))"
        "map_of cp' ''total_facts'' = map_of cp1 ''total_facts''"
        "map_of cp' ''started_at'' = map_of cp1 ''started_at''"
      and fl: "write_result env (Suc i + length fs - 1) = WriteOk \<longrightarrow> checkpoint_file w' = Written cp'"
      by blast
    have idx: "i + length (f # fs) - 1 = Suc i + length fs - 1" using False by (cases fs) simp_all
    from p r have "run_loop env i (f # fs) cp w = (None, cp', w')" by simp
    with m fl m1 c1 False idx show ?thesis by simp
  qed
qed

lemma try_fact_csv:
  assumes "try_fact env i f w = (Inr a, w1)"
  shows "csv_updates w1 = csv_updates w @ [(fact_number f, a)]"
proof -
  obtain r0 w0 where a: "assess_fact env f w = (r0, w0)" by (cases "assess_fact env f w")
  note fr = assess_fact_frame[OF a]
  from a assms obtain asm where r0: "r0 = Inr asm"
    by (cases r0) (auto simp: try_fact_def Let_def)
  with a assms fr show ?thesis
    by (auto simp: try_fact_def Let_def split: option.splits)
qed

lemma process_fact_stored:
  assumes "wf_checkpoint cp" "\<forall>e. retrieve env (fact_text f) None \<noteq> Inl e"
    "upsert_error env i = None" "csv_error env i = None"
  shows "\<exists>cp' w' a. process_fact env i f cp w = (None, cp', w') \<and> wf_checkpoint cp' \<and>
           map_of cp' ''failed_facts'' = map_of cp ''failed_facts'' \<and>
           events w' = events w @ success_events (fact_number f) \<and>
           csv_updates w' = csv_updates w @ [(fact_number f, a)] \<and>
           assessments w' = upsert_assessment (fact_number f) a (fact_time env i) (created_at env i)
             (assessments w)"
proof -
  from try_fact_ok[OF assms(2-4), of w] obtain a w1 where t: "try_fact env i f w = (Inr a, w1)"
    by blast
  let ?cp' = "AList.update ''last_updated'' (JStr (save_time env i))
        (AList.update ''facts_processed'' (JInt (processed_count cp + 1))
          (AList.update ''last_completed_fact'' (JInt (fact_number f)) cp))"
  from t update_checkpoint_success[OF assms(1), of "save_time env i" "write_result env i"
        "fact_number f" "checkpoint_file w1"]
  have p: "process_fact env i f cp w =
        (None, ?cp', w1\<lparr>checkpoint_file := write_file (write_result env i) ?cp' (checkpoint_file w1),
           events := events w1 @ [EvAdvance (fact_number f) True]\<rparr>)"
    by (simp add: process_fact_def Let_def)
  have "map_of ?cp' ''failed_facts'' = map_of cp ''failed_facts''"
    by (simp add: update_conv')
  with p wf_after_success[OF assms(1)] try_fact_Inr[OF t] try_fact_csv[OF t] show ?thesis
    by (simp add: success_events_def)
qed

lemma run_loop_stored:
  "wf_checkpoint cp \<Longrightarrow> no_failures env fs \<Longrightarrow>
   \<exists>cp' w' as. run_loop env i fs cp w = (None, cp', w') \<and>
     map_of cp' ''failed_facts'' = map_of cp ''failed_facts'' \<and>
     events w' = events w @ concat (map (\<lambda>f. success_events (fact_number f)) fs) \<and>
     length as = length fs \<and>
     csv_updates w' = csv_updates w @ zip (map fact_number fs) as \<and>
     assessments w' = upsert_all env i (zip (map fact_number fs) as) (assessments w)"
proof (induction fs arbitrary: i cp w)
  case Nil
  then show ?case by simp
next
  case (Cons f fs)
  from Cons.prems(2) have nf: "no_failures env fs"
    and h: "\<forall>e. retrieve env (fact_text f) None \<noteq> Inl e" "upsert_error env i = None"
      "csv_error env i = None"
    by (auto simp: no_failures_def)
  from process_fact_stored[OF Cons.prems(1) h, of w] obtain cp1 w1 a where
    p: "process_fact env i f cp w = (None, cp1, w1)" and wf1: "wf_checkpoint cp1"
    and f1: "map_of cp1 ''failed_facts'' = map_of cp ''failed_facts''"
    and e1: "events w1 = events w @ success_events (fact_number f)"
    and c1: "csv_updates w1 = csv_updates w @ [(fact_number f, a)]"
    and s1: "assessments w1 = upsert_assessment (fact_number f) a (fact_time env i) (created_at env i)
             (assessments w)" by blast
  from Cons.IH[OF wf1 nf, of "Suc i" w1] obtain cp' w' as where
    r: "run_loop env (Suc i) fs cp1 w1 = (None, cp', w')"
    and f: "map_of cp' ''failed_facts'' = map_of cp1 ''failed_facts''"
    and e: "events w' = events w1 @ concat (map (\<lambda>f. success_events (fact_number f)) fs)"
    and l: "length as = length fs"
    and c: "csv_updates w' = csv_updates w1 @ zip (map fact_number fs) as"
    and s: "assessments w' = upsert_all env (Suc i) (zip (map fact_number fs) as) (assessments w1)"
    by blast
  from p r have "run_loop env i (f # fs) cp w = (None, cp', w')" by simp
  with f f1 e e1 l c c1 s s1 show ?case
    by (intro exI[of _ cp'] exI[of _ w'] exI[of _ "a # as"]) simp
qed

lemma no_failures_filter: "no_failures env facts \<Longrightarrow> no_failures env (filter P facts)"
  by (simp add: no_failures_def)

lemma pending_nth: "j < 5 \<Longrightarrow> [6, 7, 8, 9, 10 :: int] ! j = 6 + int j"
  by (auto simp: less_Suc_eq numeral_eq_Suc)

text \<open>
  Claim C1 (resume correctness). With a loaded checkpoint in the persisted format whose
  cursor \<open>last_completed_fact\<close> is 5, and a catalogue that lists the claims numbered 1 to
  10, the pending set is exactly the claims with a number greater than 5. The run ends
  without an exception, assesses the claims 6, 7, 8, 9, 10 in that order and advances the
  checkpoint once for each of them, in that order: at the end the cursor is 10,
  \<open>facts_processed\<close> has grown by 5, \<open>last_updated\<close> is the stamp of the fifth save,
  \<open>total_facts\<close> and \<open>started_at\<close> are as before, and the checkpoint file holds the
  final checkpoint when the last write succeeds. When no call raises into the orchestrator,
  every one of the five claims is assessed, upserted, reported and advanced as a success,
  one claim after the other; \<open>failed_facts\<close> is as before; the report received the five
  assessments in order; the collection holds for each of the claims 6 to 10 a record with
  that assessment, the processing time and the creation stamp of its position (one record
  where there was none or one before); and the records of all other claims are untouched.
\<close>

theorem resume_correctness:
  assumes "map fact_number facts = [1, 2, 3, 4, 5, 6, 7, 8, 9, 10]"
    and "load_checkpoint (checkpoint_file w) = Some cp"
    and "map_of cp ''last_completed_fact'' = Some (JInt 5)"
    and "wf_checkpoint cp"
  shows "facts_to_process facts (last_completed cp) = Inr (filter (\<lambda>f. fact_number f > 5) facts) \<and>
         map fact_number (filter (\<lambda>f. fact_number f > 5) facts) = [6, 7, 8, 9, 10] \<and>
         (\<exists>cp' w'. run env facts w = (None, cp', w') \<and>
            assessed (events w') = assessed (events w) @ [6, 7, 8, 9, 10] \<and>
            map fst (advanced (events w')) = map fst (advanced (events w)) @ [6, 7, 8, 9, 10] \<and>
            map_of cp' ''last_completed_fact'' = Some (JInt 10) \<and>
            map_of cp' ''facts_processed'' = Some (JInt (processed_count cp + 5)) \<and>
            map_of cp' ''last_updated'' = Some (JStr (save_time env 4)) \<and>
            map_of cp' ''total_facts'' = map_of cp ''total_facts'' \<and>
            map_of cp' ''started_at'' = map_of cp ''started_at'' \<and>
            (write_result env 4 = WriteOk \<longrightarrow> checkpoint_file w' = Written cp') \<and>
            (no_failures env facts \<longrightarrow>
               events w' = events w @ concat (map success_events [6, 7, 8, 9, 10]) \<and>
               map_of cp' ''failed_facts'' = map_of cp ''failed_facts'' \<and>
               (\<exists>as. length as = 5 \<and>
                  csv_updates w' = csv_updates w @ zip [6, 7, 8, 9, 10] as \<and>
                  (\<forall>j<5. stored_at env j (6 + int j) (as ! j) (assessments w') \<and>
                     length (filter (keyed_by (6 + int j)) (assessments w')) =
                       max 1 (length (filter (keyed_by (6 + int j)) (assessments w)))) \<and>
                  (\<forall>m. m \<notin> {6, 7, 8, 9, 10} \<longrightarrow>
                     filter (keyed_by m) (assessments w') = filter (keyed_by m) (assessments w)))))"
proof -
  let ?pending = "filter (\<lambda>f. fact_number f > 5) facts"
  have lc: "last_completed cp = JInt 5" using assms(3) by (simp add: last_completed_def)
  have p: "facts_to_process facts (last_completed cp) = Inr ?pending"
    by (simp add: lc facts_to_process_int)
  have "map fact_number ?pending = filter (\<lambda>n. n > 5) (map fact_number facts)"
    by (simp add: filter_map comp_def)
  then have nums: "map fact_number ?pending = [6, 7, 8, 9, 10]"
    by (simp add: assms(1))
  have len: "length ?pending = 5" using arg_cong[OF nums, of length] by simp
  then have ne: "?pending \<noteq> []" by auto
  have "fact_number (last ?pending) = last (map fact_number ?pending)"
    using ne by (simp add: last_map)
  then have lastn: "fact_number (last ?pending) = 10" by (simp add: nums)
  have r: "run env facts w = run_loop env 0 ?pending cp w"
    using assms(2) p lc by (simp add: run_def initial_checkpoint_def Let_def)
  from run_loop_all[OF assms(4), of env 0 ?pending w] obtain cp' w' where
    l: "run_loop env 0 ?pending cp w = (None, cp', w')"
    and a: "assessed (events w') = assessed (events w) @ map fact_number ?pending"
    and d: "map fst (advanced (events w')) = map fst (advanced (events w)) @ map fact_number ?pending"
    by blast
  from run_loop_checkpoint[OF assms(4) ne, of env 0 w] l len lastn
  have ck: "map_of cp' ''last_completed_fact'' = Some (JInt 10)"
    "map_of cp' ''facts_processed'' = Some (JInt (processed_count cp + 5))"
    "map_of cp' ''last_updated'' = Some (JStr (save_time env 4))"
    "map_of cp' ''total_facts'' = map_of cp ''total_facts''"
    "map_of cp' ''started_at'' = map_of cp ''started_at''"
    "write_result env 4 = WriteOk \<longrightarrow> checkpoint_file w' = Written cp'"
    by simp_all
  have ok: "events w' = events w @ concat (map success_events [6, 7, 8, 9, 10]) \<and>
      map_of cp' ''failed_facts'' = map_of cp ''failed_facts'' \<and>
      (\<exists>as. length as = 5 \<and>
         csv_updates w' = csv_updates w @ zip [6, 7, 8, 9, 10] as \<and>
         (\<forall>j<5. stored_at env j (6 + int j) (as ! j) (assessments w') \<and>
            length (filter (keyed_by (6 + int j)) (assessments w')) =
              max 1 (length (filter (keyed_by (6 + int j)) (assessments w)))) \<and>
         (\<forall>m. m \<notin> {6, 7, 8, 9, 10} \<longrightarrow>
            filter (keyed_by m) (assessments w') = filter (keyed_by m) (assessments w)))"
    if nf: "no_failures env facts"
  proof -
    have "\<exists>cp' w' as. run_loop env 0 ?pending cp w = (None, cp', w') \<and>
        map_of cp' ''failed_facts'' = map_of cp ''failed_facts'' \<and>
        events w' = events w @ concat (map (\<lambda>f. success_events (fact_number f)) ?pending) \<and>
        length as = length ?pending \<and>
        csv_updates w' = csv_updates w @ zip (map fact_number ?pending) as \<and>
        assessments w' = upsert_all env 0 (zip (map fact_number ?pending) as) (assessments w)"
      by (rule run_loop_stored[OF assms(4) no_failures_filter[OF nf]])
    with l obtain as where
      ff: "map_of cp' ''failed_facts'' = map_of cp ''failed_facts''"
      and ev: "events w' = events w @ concat (map (\<lambda>f. success_events (fact_number f)) ?pending)"
      and la: "length as = 5"
      and csv: "csv_updates w' = csv_updates w @ zip [6, 7, 8, 9, 10] as"
      and st: "assessments w' = upsert_all env 0 (zip [6, 7, 8, 9, 10] as) (assessments w)"
      by (auto simp: nums len)
    let ?xs = "zip [6, 7, 8, 9, 10 :: int] as"
    have fx: "map fst ?xs = [6, 7, 8, 9, 10]" using la by (simp add: map_fst_zip)
    then have dx: "distinct (map fst ?xs)" by simp
    have lx: "length ?xs = 5" using la by simp
    have "map (\<lambda>f. success_events (fact_number f)) ?pending =
        map success_events (map fact_number ?pending)" by (simp add: comp_def)
    with ev have ev': "events w' = events w @ concat (map success_events [6, 7, 8, 9, 10])"
      by (simp only: nums)
    have rec: "stored_at env j (6 + int j) (as ! j) (assessments w') \<and>
            length (filter (keyed_by (6 + int j)) (assessments w')) =
              max 1 (length (filter (keyed_by (6 + int j)) (assessments w)))" if j: "j < 5" for j
    proof -
      from j lx have jl: "j < length ?xs" by simp
      have nth: "?xs ! j = (6 + int j, as ! j)"
        using j la pending_nth[OF j] by simp
      from upsert_all_stored[OF dx jl, of env 0 "assessments w"] show ?thesis
        by (simp add: nth st)
    qed
    have oth: "filter (keyed_by m) (assessments w') = filter (keyed_by m) (assessments w)"
      if "m \<notin> {6, 7, 8, 9, 10}" for m
    proof -
      have "fst ` set ?xs = set (map fst ?xs)" by simp
      with fx that have "m \<notin> fst ` set ?xs" by (simp only: fx) simp
      from upsert_all_other[OF this, of env 0 "assessments w"] show ?thesis by (simp add: st)
    qed
    from ev' ff la csv rec oth show ?thesis by blast
  qed
  from p nums r l a d ck ok show ?thesis by (simp only: nums) blast
qed

lemma sample_retrieve:
  "retrieve (sample_env judge (Inr [sample_chunk])) t None =
     Inr [\<lparr>r_doc_id = ''doc'', r_chunk_id = 0, r_text = ''reserve dynamics'',
           r_metadata = [(''filename'', JStr ''paper.pdf'')], similarity_score = 1\<rparr>]"
  by (simp add: retrieve_def sample_env_def sample_chunk_def TOP_K_RETRIEVAL_def
      cosine_similarity_search_def linalg_norm_def np_dot_def dotp_def
      sort_desc_def py_take_def py_adjust_end_def mk_result_def)

lemma sample_retrieve_empty:
  "retrieve (sample_env judge (Inr [])) t None = Inr []"
  by (simp add: retrieve_def sample_env_def TOP_K_RETRIEVAL_def cosine_similarity_search_def)

lemma sample_no_failures: "no_failures (sample_env judge (Inr [sample_chunk])) facts"
  by (simp add: no_failures_def sample_retrieve) (simp add: sample_env_def)

text \<open>Ten sample claims, a checkpoint with cursor 5, and a judge that answers \<open>{}\<close>.\<close>

theorem resume_correctness_witness:
  "map fact_number sample_facts = [1, 2, 3, 4, 5, 6, 7, 8, 9, 10] \<and>
   load_checkpoint (checkpoint_file (empty_world\<lparr>checkpoint_file := Written sample_checkpoint\<rparr>)) =
     Some sample_checkpoint \<and>
   map_of sample_checkpoint ''last_completed_fact'' = Some (JInt 5) \<and>
   wf_checkpoint sample_checkpoint \<and>
   no_failures (sample_env empty_judge (Inr [sample_chunk])) sample_facts \<and>
   write_result (sample_env empty_judge (Inr [sample_chunk])) 4 = WriteOk \<and>
   events (snd (snd (run (sample_env empty_judge (Inr [sample_chunk])) sample_facts
      (empty_world\<lparr>checkpoint_file := Written sample_checkpoint\<rparr>)))) =
     concat (map success_events [6, 7, 8, 9, 10]) \<and>
   map_of (fst (snd (run (sample_env empty_judge (Inr [sample_chunk])) sample_facts
      (empty_world\<lparr>checkpoint_file := Written sample_checkpoint\<rparr>)))) ''last_completed_fact'' =
     Some (JInt 10) \<and>
   map_of (fst (snd (run (sample_env empty_judge (Inr [sample_chunk])) sample_facts
      (empty_world\<lparr>checkpoint_file := Written sample_checkpoint\<rparr>)))) ''facts_processed'' =
     Some (JInt 10) \<and>
   map_of (fst (snd (run (sample_env empty_judge (Inr [sample_chunk])) sample_facts
      (empty_world\<lparr>checkpoint_file := Written sample_checkpoint\<rparr>)))) ''failed_facts'' =
     Some (JArr []) \<and>
   checkpoint_file (snd (snd (run (sample_env empty_judge (Inr [sample_chunk])) sample_facts
      (empty_world\<lparr>checkpoint_file := Written sample_checkpoint\<rparr>)))) =
     Written (fst (snd (run (sample_env empty_judge (Inr [sample_chunk])) sample_facts
      (empty_world\<lparr>checkpoint_file := Written sample_checkpoint\<rparr>)))) \<and>
   length (filter (keyed_by 8) (assessments (snd (snd (run (sample_env empty_judge
      (Inr [sample_chunk])) sample_facts
      (empty_world\<lparr>checkpoint_file := Written sample_checkpoint\<rparr>)))))) = 1 \<and>
   filter (keyed_by 3) (assessments (snd (snd (run (sample_env empty_judge
      (Inr [sample_chunk])) sample_facts
      (empty_world\<lparr>checkpoint_file := Written sample_checkpoint\<rparr>))))) = []"
proof -
  let ?E = "sample_env empty_judge (Inr [sample_chunk])"
  let ?W = "empty_world\<lparr>checkpoint_file := Written sample_checkpoint\<rparr>"
  have 1: "map fact_number sample_facts = [1, 2, 3, 4, 5, 6, 7, 8, 9, 10]"
    by (simp add: sample_facts_def sample_fact_def)
  have 2: "load_checkpoint (checkpoint_file ?W) = Some sample_checkpoint"
    by (simp add: load_checkpoint_def)
  have 3: "map_of sample_checkpoint ''last_completed_fact'' = Some (JInt 5)"
    by (simp add: sample_checkpoint_def)
  have 4: "wf_checkpoint sample_checkpoint"
    by (simp add: wf_checkpoint_def sample_checkpoint_def)
  have 5: "no_failures ?E sample_facts"
    by (rule sample_no_failures)
  have 6: "write_result ?E 4 = WriteOk" by (simp add: sample_env_def)
  have pc: "processed_count sample_checkpoint = 5"
    "map_of sample_checkpoint ''failed_facts'' = Some (JArr [])"
    by (simp_all add: processed_count_def sample_checkpoint_def)
  have w0: "events ?W = []" "assessments ?W = []" by (simp_all add: empty_world_def)
  from resume_correctness[OF 1 2 3 4, of ?E] 5 6 obtain cp' w' as where
    r: "run ?E sample_facts ?W = (None, cp', w')"
    and c: "map_of cp' ''last_completed_fact'' = Some (JInt 10)"
      "map_of cp' ''facts_processed'' = Some (JInt (processed_count sample_checkpoint + 5))"
      "checkpoint_file w' = Written cp'"
    and e: "events w' = events ?W @ concat (map success_events [6, 7, 8, 9, 10])"
    and f: "map_of cp' ''failed_facts'' = map_of sample_checkpoint ''failed_facts''"
    and st: "\<forall>j<5. stored_at ?E j (6 + int j) (as ! j) (assessments w') \<and>
                     length (filter (keyed_by (6 + int j)) (assessments w')) =
                       max 1 (length (filter (keyed_by (6 + int j)) (assessments ?W)))"
    and ot: "\<forall>m. m \<notin> {6, 7, 8, 9, 10} \<longrightarrow>
                     filter (keyed_by m) (assessments w') = filter (keyed_by m) (assessments ?W)"
    by blast
  have "(2::nat) < 5" by simp
  with st have "length (filter (keyed_by (6 + int 2)) (assessments w')) =
      max 1 (length (filter (keyed_by (6 + int 2)) (assessments ?W)))" by blast
  then have s8: "length (filter (keyed_by 8) (assessments w')) = 1" by (simp add: w0)
  from ot have "filter (keyed_by 3) (assessments w') = filter (keyed_by 3) (assessments ?W)"
    by simp
  then have s3: "filter (keyed_by 3) (assessments w') = []" by (simp add: w0)
  from r c e f s8 s3 pc w0 have
    "events (snd (snd (run ?E sample_facts ?W))) = concat (map success_events [6, 7, 8, 9, 10])"
    "map_of (fst (snd (run ?E sample_facts ?W))) ''last_completed_fact'' = Some (JInt 10)"
    "map_of (fst (snd (run ?E sample_facts ?W))) ''facts_processed'' = Some (JInt 10)"
    "map_of (fst (snd (run ?E sample_facts ?W))) ''failed_facts'' = Some (JArr [])"
    "checkpoint_file (snd (snd (run ?E sample_facts ?W))) = Written (fst (snd (run ?E sample_facts ?W)))"
    "length (filter (keyed_by 8) (assessments (snd (snd (run ?E sample_facts ?W))))) = 1"
    "filter (keyed_by 3) (assessments (snd (snd (run ?E sample_facts ?W)))) = []"
    by simp_all
  with 1 2 3 4 5 6 show ?thesis by blast
qed

lemma generate_json_raises:
  assumes "\<forall>k msgs. judge_chat env k msgs = Inl e" "\<not> is_JSONDecodeError e" "1 \<le> m"
  shows "\<exists>w'. generate_json env prompt sp m w = (Inl e, w')"
proof -
  from assms(3) obtain k where "nat m = Suc k" by (cases "nat m") auto
  then have "[0..<nat m] = 0 # [Suc 0..<Suc k]" by (simp add: upt_conv_Cons)
  with assms(1,2) show ?thesis
    by (simp add: generate_json_def try_generate_def generate_def)
qed

lemma assess_judge_raises:
  assumes "retrieve env (fact_text f) None = Inr (c # cs)"
    and "\<forall>k msgs. judge_chat env k msgs = Inl e" and "\<not> is_JSONDecodeError e"
  shows "\<exists>w'. assess_fact env f w = (Inr (default_assessment (''Error: '' @ exn_str e)), w')"
proof -
  let ?w0 = "w\<lparr>events := events w @ [EvAssess (fact_number f)]\<rparr>"
  let ?p = "create_prompt (fact_number f) (fact_text f) (build_context env (c # cs))"
  from generate_json_raises[OF assms(2,3), of 3 ?p "Some (system_prompt env)" ?w0]
  obtain w' where "generate_json env ?p (Some (system_prompt env)) 3 ?w0 = (Inl e, w')"
    by auto
  with assms(1) show ?thesis by (simp add: assess_fact_def Let_def)
qed

text \<open>
  Claim C6 (per-claim failure handling), as the code has it, for a checkpoint in the
  persisted format. An exception reaches the orchestrator only from retrieval, from the
  result upsert or from the report update; it is caught there, the claim's number is
  appended to \<open>failed_facts\<close>, the claim is advanced as a failure and not as a success,
  and the loop goes on with the next claim. A claim whose steps raise nothing is advanced
  as a success and \<open>failed_facts\<close> keeps its value. An exception of the judge call other
  than a decoding failure does not reach the orchestrator: the assessment engine catches
  it and returns the default assessment with the evidence text \<open>Error: \<close> and the
  exception's message.
\<close>

theorem failure_handling:
  assumes "wf_checkpoint cp"
  shows "(\<forall>e w1. try_fact env i f w = (Inl e, w1) \<longrightarrow>
            (retrieve env (fact_text f) None = Inl e \<or> upsert_error env i = Some e \<or>
             csv_error env i = Some e) \<and>
            (\<exists>cp' w'. process_fact env i f cp w = (None, cp', w') \<and> wf_checkpoint cp' \<and>
               failed_list cp' = failed_list cp @ [JInt (fact_number f)] \<and>
               advanced (events w') = advanced (events w) @ [(fact_number f, False)] \<and>
               run_loop env i (f # fs) cp w = run_loop env (Suc i) fs cp' w')) \<and>
         (\<forall>a w1. try_fact env i f w = (Inr a, w1) \<longrightarrow>
            (\<exists>cp' w'. process_fact env i f cp w = (None, cp', w') \<and> wf_checkpoint cp' \<and>
               failed_list cp' = failed_list cp \<and>
               advanced (events w') = advanced (events w) @ [(fact_number f, True)] \<and>
               run_loop env i (f # fs) cp w = run_loop env (Suc i) fs cp' w')) \<and>
         (\<forall>c cs e. retrieve env (fact_text f) None = Inr (c # cs) \<and>
            (\<forall>k msgs. judge_chat env k msgs = Inl e) \<and> \<not> is_JSONDecodeError e \<longrightarrow>
            (\<exists>w'. assess_fact env f w =
               (Inr (default_assessment (''Error: '' @ exn_str e)), w')))"
proof (intro conjI allI impI)
  fix e w1 assume t: "try_fact env i f w = (Inl e, w1)"
  from try_fact_Inl[OF t]
  show "retrieve env (fact_text f) None = Inl e \<or> upsert_error env i = Some e \<or>
        csv_error env i = Some e" by simp
  from process_fact_failed[OF assms t] obtain cp' w' where
    p: "process_fact env i f cp w = (None, cp', w')" "wf_checkpoint cp'"
      "failed_list cp' = failed_list cp @ [JInt (fact_number f)]"
      "events w' = events w1 @ [EvAdvance (fact_number f) False]" by blast
  from p(4) try_fact_Inl[OF t]
  have "advanced (events w') = advanced (events w) @ [(fact_number f, False)]"
    by (simp add: advanced_append) (simp add: advanced_def)
  moreover from p(1) have "run_loop env i (f # fs) cp w = run_loop env (Suc i) fs cp' w'"
    by simp
  ultimately show "\<exists>cp' w'. process_fact env i f cp w = (None, cp', w') \<and> wf_checkpoint cp' \<and>
               failed_list cp' = failed_list cp @ [JInt (fact_number f)] \<and>
               advanced (events w') = advanced (events w) @ [(fact_number f, False)] \<and>
               run_loop env i (f # fs) cp w = run_loop env (Suc i) fs cp' w'"
    using p by blast
next
  fix a w1 assume t: "try_fact env i f w = (Inr a, w1)"
  from process_fact_succeeded[OF assms t] obtain cp' w' where
    p: "process_fact env i f cp w = (None, cp', w')" "wf_checkpoint cp'"
      "failed_list cp' = failed_list cp"
      "events w' = events w1 @ [EvAdvance (fact_number f) True]" by blast
  from p(4) try_fact_Inr[OF t]
  have "advanced (events w') = advanced (events w) @ [(fact_number f, True)]"
    by (simp add: advanced_append) (simp add: advanced_def)
  moreover from p(1) have "run_loop env i (f # fs) cp w = run_loop env (Suc i) fs cp' w'"
    by simp
  ultimately show "\<exists>cp' w'. process_fact env i f cp w = (None, cp', w') \<and> wf_checkpoint cp' \<and>
               failed_list cp' = failed_list cp \<and>
               advanced (events w') = advanced (events w) @ [(fact_number f, True)] \<and>
               run_loop env i (f # fs) cp w = run_loop env (Suc i) fs cp' w'"
    using p by blast
next
  fix c cs e
  assume "retrieve env (fact_text f) None = Inr (c # cs) \<and>
            (\<forall>k msgs. judge_chat env k msgs = Inl e) \<and> \<not> is_JSONDecodeError e"
  then show "\<exists>w'. assess_fact env f w =
               (Inr (default_assessment (''Error: '' @ exn_str e)), w')"
    using assess_judge_raises by blast
qed


lemma unreachable_raises:
  "\<forall>k msgs. judge_chat (sample_env unreachable_judge cs) k msgs = Inl (OtherError ''connection refused'')"
  by (simp add: sample_env_def unreachable_judge_def)

lemma sample_errors:
  "upsert_error (sample_env judge cs) i = None" "csv_error (sample_env judge cs) i = None"
  "fact_time (sample_env judge cs) i = 1" "created_at (sample_env judge cs) i = ''2025-01-01 00:00:00''"
  by (simp_all add: sample_env_def)

lemma wf_initial: "wf_checkpoint (create_initial_checkpoint n t1 t2)"
  by (simp add: wf_checkpoint_def create_initial_checkpoint_def)

text \<open>
  Claim C6 as stated fails for its own example. With a judge that raises a connection
  error on every call, the run over one claim ends with an empty failure ledger, the claim
  advanced as a success, and a stored assessment whose evidence text is
  \<open>Error: connection refused\<close>.
\<close>

theorem judge_error_counterexample:
  "fst (run (sample_env unreachable_judge (Inr [sample_chunk])) [sample_fact 1] empty_world) = None \<and>
   failed_list (fst (snd (run (sample_env unreachable_judge (Inr [sample_chunk])) [sample_fact 1]
      empty_world))) = [] \<and>
   advanced (events (snd (snd (run (sample_env unreachable_judge (Inr [sample_chunk]))
      [sample_fact 1] empty_world)))) = [(1, True)] \<and>
   assessments (snd (snd (run (sample_env unreachable_judge (Inr [sample_chunk]))
      [sample_fact 1] empty_world))) =
     [assessment_fields 1 (default_assessment ''Error: connection refused'') 1 ''2025-01-01 00:00:00'']"
proof -
  let ?E = "sample_env unreachable_judge (Inr [sample_chunk])"
  let ?f = "sample_fact 1"
  let ?cp0 = "create_initial_checkpoint 1 (init_started_at ?E) (init_last_updated ?E)"
  let ?d = "default_assessment ''Error: connection refused''"
  have n: "fact_number ?f = 1" by (simp add: sample_fact_def)
  have r: "run ?E [?f] empty_world = process_fact ?E 0 ?f ?cp0 empty_world"
    by (simp add: run_def initial_checkpoint_def load_checkpoint_def empty_world_def
        last_completed_def create_initial_checkpoint_def n split: prod.splits option.splits)
  from assess_judge_raises[OF sample_retrieve unreachable_raises, of ?f empty_world]
  obtain w0 where a: "assess_fact ?E ?f empty_world = (Inr ?d, w0)" by auto
  from try_fact_ok[of ?E ?f 0 empty_world] obtain a' w1 where
    t: "try_fact ?E 0 ?f empty_world = (Inr a', w1)"
    by (auto simp: sample_retrieve sample_errors)
  from try_fact_Inr[OF t] a have a': "a' = ?d"
    and ev: "events w1 = [EvAssess 1, EvUpsert 1, EvCsv 1]"
    and st: "assessments w1 = upsert_assessment 1 ?d 1 ''2025-01-01 00:00:00'' []"
    by (simp_all add: n sample_errors empty_world_def)
  from process_fact_succeeded[OF wf_initial t, of 1 "init_started_at ?E" "init_last_updated ?E"]
  obtain cp' w' where p: "process_fact ?E 0 ?f ?cp0 empty_world = (None, cp', w')"
    and fl: "failed_list cp' = failed_list ?cp0"
    and ev': "events w' = events w1 @ [EvAdvance (fact_number ?f) True]"
    and st': "assessments w' = assessments w1" by blast
  have "failed_list ?cp0 = []"
    by (simp add: failed_list_def create_initial_checkpoint_def)
  moreover have "upsert_assessment 1 ?d 1 ''2025-01-01 00:00:00'' [] =
      [assessment_fields 1 ?d 1 ''2025-01-01 00:00:00'']"
    by (simp add: upsert_assessment_def update_one_upsert_def set_fields_def assessment_fields_def)
  ultimately show ?thesis
    using r p fl ev ev' st st' n by (simp add: advanced_def)
qed

text \<open>
  A chunk store that is down (the claim fails), an empty chunk collection (the claim
  succeeds), and a judge that cannot be reached (the engine returns its default).
\<close>

theorem failure_handling_witness:
  "wf_checkpoint sample_checkpoint \<and>
   try_fact (sample_env garbled_judge (Inl (OtherError ''store down''))) 0 (sample_fact 6) empty_world =
     (Inl (OtherError ''store down''), empty_world\<lparr>events := [EvAssess 6]\<rparr>) \<and>
   (\<exists>cp' w'. process_fact (sample_env garbled_judge (Inl (OtherError ''store down''))) 0
        (sample_fact 6) sample_checkpoint empty_world = (None, cp', w') \<and>
      failed_list cp' = [JInt 6] \<and> advanced (events w') = [(6, False)]) \<and>
   try_fact (sample_env empty_judge (Inr [])) 0 (sample_fact 6) empty_world =
     (Inr (default_assessment ''No relevant literature found''),
      empty_world\<lparr>assessments := [assessment_fields 6
           (default_assessment ''No relevant literature found'') 1 ''2025-01-01 00:00:00''],
         csv_updates := [(6, default_assessment ''No relevant literature found'')],
         events := [EvAssess 6, EvUpsert 6, EvCsv 6]\<rparr>) \<and>
   (\<exists>cp' w'. process_fact (sample_env empty_judge (Inr [])) 0
        (sample_fact 6) sample_checkpoint empty_world = (None, cp', w') \<and>
      failed_list cp' = [] \<and> advanced (events w') = [(6, True)]) \<and>
   retrieve (sample_env unreachable_judge (Inr [sample_chunk])) (fact_text (sample_fact 6)) None =
     Inr [\<lparr>r_doc_id = ''doc'', r_chunk_id = 0, r_text = ''reserve dynamics'',
           r_metadata = [(''filename'', JStr ''paper.pdf'')], similarity_score = 1\<rparr>] \<and>
   (\<forall>k msgs. judge_chat (sample_env unreachable_judge (Inr [sample_chunk])) k msgs =
      Inl (OtherError ''connection refused'')) \<and>
   \<not> is_JSONDecodeError (OtherError ''connection refused'') \<and>
   (\<exists>w'. assess_fact (sample_env unreachable_judge (Inr [sample_chunk])) (sample_fact 6) empty_world =
      (Inr (default_assessment ''Error: connection refused''), w'))"
proof -
  let ?Edown = "sample_env garbled_judge (Inl (OtherError ''store down''))"
  let ?Eok = "sample_env empty_judge (Inr [])"
  let ?Eun = "sample_env unreachable_judge (Inr [sample_chunk])"
  let ?f = "sample_fact 6"
  have wf: "wf_checkpoint sample_checkpoint"
    by (simp add: wf_checkpoint_def sample_checkpoint_def)
  have fl: "failed_list sample_checkpoint = []"
    by (simp add: failed_list_def sample_checkpoint_def)
  have n: "fact_number ?f = 6" by (simp add: sample_fact_def)
  have ev0: "events empty_world = []" by (simp add: empty_world_def)
  have t1: "try_fact ?Edown 0 ?f empty_world =
     (Inl (OtherError ''store down''), empty_world\<lparr>events := [EvAssess 6]\<rparr>)"
    by (simp add: try_fact_def assess_fact_def retrieve_def sample_env_def Let_def n empty_world_def)
  have t2: "try_fact ?Eok 0 ?f empty_world =
     (Inr (default_assessment ''No relevant literature found''),
      empty_world\<lparr>assessments := [assessment_fields 6
           (default_assessment ''No relevant literature found'') 1 ''2025-01-01 00:00:00''],
         csv_updates := [(6, default_assessment ''No relevant literature found'')],
         events := [EvAssess 6, EvUpsert 6, EvCsv 6]\<rparr>)"
    by (simp add: try_fact_def assess_no_chunks[OF sample_retrieve_empty] Let_def n sample_errors
        empty_world_def upsert_assessment_def update_one_upsert_def set_fields_def
        assessment_fields_def)
  note fh = failure_handling[OF wf]
  from fh[of ?Edown 0 ?f empty_world] t1
  have p1: "\<exists>cp' w'. process_fact ?Edown 0 ?f sample_checkpoint empty_world = (None, cp', w') \<and>
      failed_list cp' = [JInt 6] \<and> advanced (events w') = [(6, False)]"
    by (simp add: fl n ev0 advanced_def) blast
  from fh[of ?Eok 0 ?f empty_world] t2
  have p2: "\<exists>cp' w'. process_fact ?Eok 0 ?f sample_checkpoint empty_world = (None, cp', w') \<and>
      failed_list cp' = [] \<and> advanced (events w') = [(6, True)]"
    by (simp add: fl n ev0 advanced_def) blast
  have nd: "\<not> is_JSONDecodeError (OtherError ''connection refused'')" by simp
  from fh[of ?Eun 0 ?f empty_world] sample_retrieve[of unreachable_judge "fact_text ?f"]
    unreachable_raises[of "Inr [sample_chunk]"] nd
  have p3: "\<exists>w'. assess_fact ?Eun ?f empty_world =
      (Inr (default_assessment ''Error: connection refused''), w')"
    by (metis exn_str.simps(6) append.simps)
  from wf t1 p1 t2 p2 sample_retrieve[of unreachable_judge "fact_text ?f"]
    unreachable_raises[of "Inr [sample_chunk]"] nd p3
  show ?thesis by blast
qed


text \<open>A collection with records for claims 3 and 7, and two upserts for claim 7.\<close>

theorem upsert_idempotent_witness:
  "length (filter (keyed_by 7)
     [assessment_fields 3 parse_failure_default 1 ''2025-01-01 00:00:00'',
      assessment_fields 7 parse_failure_default 1 ''2025-01-01 00:00:00'']) \<le> 1 \<and>
   (\<exists>d. filter (keyed_by 7)
          (upsert_assessment 7 parse_failure_default 2 ''2025-01-03 00:00:00''
            (upsert_assessment 7 (default_assessment ''No relevant literature found'') 2
               ''2025-01-02 00:00:00''
               [assessment_fields 3 parse_failure_default 1 ''2025-01-01 00:00:00'',
                assessment_fields 7 parse_failure_default 1 ''2025-01-01 00:00:00''])) = [d] \<and>
        map_of d ''assessment_result'' = Some (JObj parse_failure_default))"
proof -
  let ?coll = "[assessment_fields 3 parse_failure_default 1 ''2025-01-01 00:00:00'',
      assessment_fields 7 parse_failure_default 1 ''2025-01-01 00:00:00'']"
  have h: "length (filter (keyed_by 7) ?coll) \<le> 1"
    by (simp add: keyed_by_def assessment_fields_def)
  from upsert_idempotent[OF h, of parse_failure_default 2 "''2025-01-03 00:00:00''"
      "default_assessment ''No relevant literature found''" 2 "''2025-01-02 00:00:00''"] h
  show ?thesis by blast
qed

text \<open>A success and a failure of claim 6 on a checkpoint with cursor 5.\<close>

theorem update_checkpoint_frame_witness:
  "wf_checkpoint sample_checkpoint \<and>
   (\<exists>cp'. update_checkpoint ''2025-01-01T00:06:00'' WriteOk sample_checkpoint 6 True NoFile =
        (None, cp', Written cp') \<and>
      map_of cp' ''last_completed_fact'' = Some (JInt 6) \<and>
      map_of cp' ''facts_processed'' = Some (JInt 6) \<and>
      map_of cp' ''failed_facts'' = Some (JArr []) \<and>
      map_of cp' ''total_facts'' = Some (JInt 10)) \<and>
   (\<exists>cp'. update_checkpoint ''2025-01-01T00:06:00'' WriteOk sample_checkpoint 6 False NoFile =
        (None, cp', Written cp') \<and>
      map_of cp' ''last_completed_fact'' = Some (JInt 6) \<and>
      map_of cp' ''facts_processed'' = Some (JInt 6) \<and>
      map_of cp' ''failed_facts'' = Some (JArr [JInt 6]) \<and>
      map_of cp' ''total_facts'' = Some (JInt 10))"
proof -
  have wf: "wf_checkpoint sample_checkpoint"
    by (simp add: wf_checkpoint_def sample_checkpoint_def)
  have v: "processed_count sample_checkpoint = 5" "failed_list sample_checkpoint = []"
    "map_of sample_checkpoint ''failed_facts'' = Some (JArr [])"
    "map_of sample_checkpoint ''total_facts'' = Some (JInt 10)"
    by (simp_all add: processed_count_def failed_list_def sample_checkpoint_def)
  have wr: "write_file WriteOk cp NoFile = Written cp" for cp
    by (simp add: write_file_def)
  from update_checkpoint_frame[OF wf, of "''2025-01-01T00:06:00''" WriteOk 6 True NoFile] v wr
  have a: "\<exists>cp'. update_checkpoint ''2025-01-01T00:06:00'' WriteOk sample_checkpoint 6 True NoFile =
        (None, cp', Written cp') \<and>
      map_of cp' ''last_completed_fact'' = Some (JInt 6) \<and>
      map_of cp' ''facts_processed'' = Some (JInt 6) \<and>
      map_of cp' ''failed_facts'' = Some (JArr []) \<and>
      map_of cp' ''total_facts'' = Some (JInt 10)"
    by auto
  from update_checkpoint_frame[OF wf, of "''2025-01-01T00:06:00''" WriteOk 6 False NoFile] v wr
  have b: "\<exists>cp'. update_checkpoint ''2025-01-01T00:06:00'' WriteOk sample_checkpoint 6 False NoFile =
        (None, cp', Written cp') \<and>
      map_of cp' ''last_completed_fact'' = Some (JInt 6) \<and>
      map_of cp' ''facts_processed'' = Some (JInt 6) \<and>
      map_of cp' ''failed_facts'' = Some (JArr [JInt 6]) \<and>
      map_of cp' ''total_facts'' = Some (JInt 10)"
    by auto
  from wf a b show ?thesis by blast
qed

end
